theory Spec2Isabelle
  imports Main "HOL-Library.Sublist"
begin

section \<open>JavaScript values and plain objects\<close>

text \<open>
  Configuration data that the manifest code only carries around (the values exported by a
  command or event module, plugin options, the remaining fields of the configuration) is a
  JSON-like value. Numbers are never computed with, so an integer stands for them.
\<close>

datatype jsval =
    Undefined
  | Null
  | Boolean bool
  | Number int
  | String string
  | Array "jsval list"
  | Object "(string \<times> jsval) list"

text \<open>
  A plain object \<open>Record<string, T>\<close> is the list of its own properties in property
  order. A well-formed object has no key twice. Keys inherited from \<open>Object.prototype\<close>
  and the engine's reordering of integer-like keys are outside the model.
\<close>

type_synonym 'a obj = "(string \<times> 'a) list"

definition wf_obj :: "'a obj \<Rightarrow> bool" where
  "wf_obj m = distinct (map fst m)"

text \<open>\<open>m[k]\<close>: the property, or nothing (\<open>undefined\<close>) when the key is absent.\<close>

definition obj_get :: "'a obj \<Rightarrow> string \<Rightarrow> 'a option" where
  "obj_get m k = map_of m k"

text \<open>\<open>m[k] = v\<close>: an existing key keeps its position, a new key goes last.\<close>

fun obj_set :: "'a obj \<Rightarrow> string \<Rightarrow> 'a \<Rightarrow> 'a obj" where
  "obj_set [] k v = [(k, v)]"
| "obj_set ((k', v') # m) k v = (if k' = k then (k, v) # m else (k', v') # obj_set m k v)"

text \<open>\<open>{...a}\<close> and \<open>{...a, ...b}\<close>: the properties are assigned to a fresh object in turn.\<close>

definition obj_assign :: "'a obj \<Rightarrow> 'a obj \<Rightarrow> 'a obj" where
  "obj_assign target src = fold (\<lambda>(k, v) acc. obj_set acc k v) src target"

definition obj_copy :: "'a obj \<Rightarrow> 'a obj" where
  "obj_copy a = obj_assign [] a"

definition obj_spread :: "'a obj \<Rightarrow> 'a obj \<Rightarrow> 'a obj" where
  "obj_spread a b = obj_assign (obj_copy a) b"

section \<open>Strings and paths\<close>

text \<open>\<open>parts.join(sep)\<close>.\<close>

fun join :: "string \<Rightarrow> string list \<Rightarrow> string" where
  "join sep [] = []"
| "join sep [x] = x"
| "join sep (x # y # ys) = x @ sep @ join sep (y # ys)"

text \<open>\<open>s.replace(pat, '')\<close> with a string pattern: the first occurrence is removed.\<close>

fun replace_first :: "string \<Rightarrow> string \<Rightarrow> string" where
  "replace_first pat [] = []"
| "replace_first pat (c # cs) =
     (if prefix pat (c # cs) then drop (length pat) (c # cs) else c # replace_first pat cs)"

text \<open>\<open>keys[i]\<close> used as a property name: a missing element reads as \<open>undefined\<close>.\<close>

definition key_at :: "string list \<Rightarrow> nat \<Rightarrow> string" where
  "key_at ks i = (if i < length ks then ks ! i else ''undefined'')"

text \<open>
  \<open>path.extname\<close> and \<open>path.basename(file, path.extname(file))\<close> on a directory entry
  (a name without separators): the extension starts at the last dot, unless there is no
  dot, nothing stands before that dot, or the name is \<open>..\<close>.
\<close>

definition extname :: "string \<Rightarrow> string" where
  "extname file =
     (if CHR ''.'' \<notin> set file then []
      else let stem = rev (tl (dropWhile (\<lambda>c. c \<noteq> CHR ''.'') (rev file)))
           in if stem = [] \<or> file = ''..'' then []
              else CHR ''.'' # rev (takeWhile (\<lambda>c. c \<noteq> CHR ''.'') (rev file)))"

definition basename_ext :: "string \<Rightarrow> string" where
  "basename_ext file = take (length file - length (extname file)) file"

section \<open>Errors\<close>

text \<open>
  \<open>logger.error(...); process.exit(1)\<close> ends the build with the logged reason; an
  assignment to a property of \<open>undefined\<close> throws a \<open>TypeError\<close>; a failing file-system
  call throws an error with a code.
\<close>

datatype exit_reason =
    ParentWithSubcommandGroups string
  | SubcommandWithSubcommandGroups string
  | ParentWithSubcommands string
  | WatchNotAvailable

datatype error =
    ProcessExit exit_reason
  | TypeError
  | FsError string

fun bind_err :: "error + 'a \<Rightarrow> ('a \<Rightarrow> error + 'b) \<Rightarrow> error + 'b" where
  "bind_err (Inl e) f = Inl e"
| "bind_err (Inr x) f = f x"

text \<open>Running a callback over a sequence of inputs; the first failure ends the run.\<close>

fun fold_err :: "('s \<Rightarrow> 'a \<Rightarrow> error + 's) \<Rightarrow> 'a list \<Rightarrow> 's \<Rightarrow> error + 's" where
  "fold_err f [] s = Inr s"
| "fold_err f (x # xs) s = (case f s x of Inl e \<Rightarrow> Inl e | Inr s' \<Rightarrow> fold_err f xs s')"

section \<open>Manifest entries\<close>

text \<open>
  The fields every entry may carry besides its children: the values taken from the
  module's exported config, and the markers \<open>__auto\<close>, \<open>__module\<close>, \<open>__path\<close> and
  \<open>__plugin\<close>. An absent field is \<open>None\<close> (\<open>False\<close> for \<open>__auto\<close>, which is \<open>true\<close> or
  absent).
\<close>

record BaseConfig =
  bc_values :: "jsval obj"
  bc_auto :: bool
  bc_module :: "string option"
  bc_path :: "string option"
  bc_plugin :: "(string \<times> string) option"

datatype CommandEntry =
  CommandEntry (command_base: BaseConfig) (subcommands: "(string \<times> CommandEntry) list option")

datatype ApiEntry =
  ApiEntry (api_base: BaseConfig) (subroutes: "(string \<times> ApiEntry) list option")

definition no_fields :: BaseConfig where
  "no_fields = \<lparr>bc_values = [], bc_auto = False, bc_module = None, bc_path = None, bc_plugin = None\<rparr>"

text \<open>The placeholders \<open>{ subcommands: {} }\<close> and \<open>{ subroutes: {} }\<close>.\<close>

definition command_placeholder :: CommandEntry where
  "command_placeholder = CommandEntry no_fields (Some [])"

definition api_placeholder :: ApiEntry where
  "api_placeholder = ApiEntry no_fields (Some [])"

text \<open>\<open>e?.__path\<close> used as a condition: a present, non-empty string.\<close>

definition truthy_path :: "BaseConfig \<Rightarrow> bool" where
  "truthy_path b = (case bc_path b of None \<Rightarrow> False | Some p \<Rightarrow> p \<noteq> [])"

definition the_path :: "BaseConfig \<Rightarrow> string" where
  "the_path b = (case bc_path b of None \<Rightarrow> [] | Some p \<Rightarrow> p)"

section \<open>One scanned file\<close>

text \<open>
  The scanner hands every source file to the callback of \<open>generateEntries\<close> as its key
  path, its full path and the keys of the modules it was found in.
\<close>

record ScannedFile =
  fileKeys :: "string list"
  fullPath :: string
  moduleKeys :: "string list"

text \<open>
  The entry of a file. \<open>importValue\<close> stands for \<open>getValue(type, (await import(path)).config)\<close>:
  the module is loaded from disk, so the value object is taken as given.
\<close>

definition make_entry :: "string \<Rightarrow> (string \<Rightarrow> jsval obj) \<Rightarrow> string list \<Rightarrow> ScannedFile \<Rightarrow> BaseConfig" where
  "make_entry cwd importValue generatedKeys f =
     (let isGenerated = List.member generatedKeys (join ''/'' (fileKeys f));
          mk = join ''/'' (moduleKeys f)
      in \<lparr>bc_values = importValue (fullPath f),
          bc_auto = isGenerated,
          bc_module = (if mk = [] then None else Some mk),
          bc_path = Some (replace_first cwd (fullPath f)),
          bc_plugin = None\<rparr>)"

section \<open>Merging events\<close>

text \<open>
  \<open>mergeEvents\<close> copies the base record and, for every event name of the new record,
  stores the base array (or the empty array) followed by the new array.
\<close>

definition merge_event :: "string \<times> 'a list \<Rightarrow> 'a list obj \<Rightarrow> 'a list obj" where
  "merge_event p mergedEvents =
     (let eventName = fst p;
          newEventArray = snd p;
          baseEventArray = (case obj_get mergedEvents eventName of None \<Rightarrow> [] | Some arr \<Rightarrow> arr)
      in obj_set mergedEvents eventName (baseEventArray @ newEventArray))"

definition mergeEvents :: "'a list obj \<Rightarrow> 'a list obj \<Rightarrow> 'a list obj" where
  "mergeEvents baseEvents newEvents = fold merge_event newEvents (obj_copy baseEvents)"

section \<open>The callback of generateEntries\<close>

text \<open>
  The callback builds the entry of the file and stores it in \<open>entries\<close> according to the
  type being scanned. The source is one function with a block per type; here each type has
  its own function, since the shape of \<open>entries\<close> differs.
\<close>

subsection \<open>Events\<close>

text \<open>The entries of an event name are an array: created empty when missing, then pushed to.\<close>

definition events_entry :: "BaseConfig list obj \<Rightarrow> string list \<Rightarrow> BaseConfig \<Rightarrow> BaseConfig list obj" where
  "events_entry entries keys entry =
     (let existingEntry = (case obj_get entries (key_at keys 0) of None \<Rightarrow> [] | Some arr \<Rightarrow> arr)
      in obj_set entries (key_at keys 0) (existingEntry @ [entry]))"

subsection \<open>Context commands\<close>

text \<open>Only key paths of length two are stored, grouped by their first key.\<close>

definition context_entry :: "CommandEntry obj obj \<Rightarrow> string list \<Rightarrow> CommandEntry \<Rightarrow> CommandEntry obj obj" where
  "context_entry entries keys entry =
     (if length keys = 2 then
        let contextType = key_at keys 0;
            entriesRecord = (case obj_get entries contextType of None \<Rightarrow> [] | Some r \<Rightarrow> r)
        in obj_set entries contextType (obj_set entriesRecord (key_at keys 1) entry)
      else entries)"

subsection \<open>Commands\<close>

text \<open>
  A third-level file goes below a subcommand group, a second-level file below its parent
  command, a top-level file is stored directly. A parent that comes from a file (it has a
  \<open>__path\<close>) ends the build. Writing into the \<open>subcommands\<close> of an entry that has none
  throws.
\<close>

definition command_level3 :: "CommandEntry obj \<Rightarrow> string list \<Rightarrow> CommandEntry \<Rightarrow> error + CommandEntry obj" where
  "command_level3 entries keys entry =
     (let found = obj_get entries (key_at keys 0) in
      if (case found of None \<Rightarrow> False | Some p \<Rightarrow> truthy_path (command_base p)) then
        Inl (ProcessExit (ParentWithSubcommandGroups
               (case found of None \<Rightarrow> [] | Some p \<Rightarrow> the_path (command_base p))))
      else
        let parentCommand = (case found of None \<Rightarrow> command_placeholder | Some p \<Rightarrow> p) in
        case subcommands parentCommand of
          None \<Rightarrow> Inl TypeError
        | Some subs \<Rightarrow>
            let foundSub = obj_get subs (key_at keys 1) in
            if (case foundSub of None \<Rightarrow> False | Some q \<Rightarrow> truthy_path (command_base q)) then
              Inl (ProcessExit (SubcommandWithSubcommandGroups
                     (case foundSub of None \<Rightarrow> [] | Some q \<Rightarrow> the_path (command_base q))))
            else
              let parentSubcommand = (case foundSub of None \<Rightarrow> command_placeholder | Some q \<Rightarrow> q) in
              case subcommands parentSubcommand of
                None \<Rightarrow> Inl TypeError
              | Some subs2 \<Rightarrow>
                  Inr (obj_set entries (key_at keys 0)
                        (CommandEntry (command_base parentCommand)
                          (Some (obj_set subs (key_at keys 1)
                            (CommandEntry (command_base parentSubcommand)
                              (Some (obj_set subs2 (key_at keys 2) entry))))))))"

definition command_level2 :: "CommandEntry obj \<Rightarrow> string list \<Rightarrow> CommandEntry \<Rightarrow> error + CommandEntry obj" where
  "command_level2 entries keys entry =
     (let found = obj_get entries (key_at keys 0) in
      if (case found of None \<Rightarrow> False | Some p \<Rightarrow> truthy_path (command_base p)) then
        Inl (ProcessExit (ParentWithSubcommands
               (case found of None \<Rightarrow> [] | Some p \<Rightarrow> the_path (command_base p))))
      else
        let parentCommand = (case found of None \<Rightarrow> command_placeholder | Some p \<Rightarrow> p) in
        case subcommands parentCommand of
          None \<Rightarrow> Inl TypeError
        | Some subs \<Rightarrow>
            Inr (obj_set entries (key_at keys 0)
                  (CommandEntry (command_base parentCommand)
                    (Some (obj_set subs (key_at keys 1) entry)))))"

definition commands_entry :: "CommandEntry obj \<Rightarrow> string list \<Rightarrow> CommandEntry \<Rightarrow> error + CommandEntry obj" where
  "commands_entry entries keys entry =
     (if length keys = 3 then command_level3 entries keys entry
      else if length keys = 2 then command_level2 entries keys entry
      else if length keys = 1 then Inr (obj_set entries (key_at keys 0) entry)
      else Inr entries)"

subsection \<open>Middleware\<close>

definition middleware_entry :: "BaseConfig obj \<Rightarrow> string list \<Rightarrow> BaseConfig \<Rightarrow> BaseConfig obj" where
  "middleware_entry entries keys entry = obj_set entries (join ''/'' keys) entry"

subsection \<open>API routes\<close>

text \<open>
  The loop over the inner keys, from a parent whose \<open>subroutes\<close> are read: a missing child
  becomes a placeholder and is descended into; the last key receives the entry. Reading
  or writing \<open>parent.subroutes[key]\<close> throws when the parent has no \<open>subroutes\<close>.
\<close>

fun api_descend :: "ApiEntry \<Rightarrow> string list \<Rightarrow> ApiEntry \<Rightarrow> error + ApiEntry" where
  "api_descend parent [] entry = Inr parent"
| "api_descend parent [lastKey] entry =
     (case subroutes parent of
        None \<Rightarrow> Inl TypeError
      | Some sr \<Rightarrow> Inr (ApiEntry (api_base parent) (Some (obj_set sr lastKey entry))))"
| "api_descend parent (key # ks) entry =
     (case subroutes parent of
        None \<Rightarrow> Inl TypeError
      | Some sr \<Rightarrow>
          let child = (case obj_get sr key of None \<Rightarrow> api_placeholder | Some c \<Rightarrow> c) in
          (case api_descend child ks entry of
             Inl e \<Rightarrow> Inl e
           | Inr child' \<Rightarrow> Inr (ApiEntry (api_base parent) (Some (obj_set sr key child')))))"

text \<open>
  The first parent is looked up in \<open>entries\<close>; it is created when missing and given empty
  \<open>subroutes\<close> when it has none.
\<close>

definition api_entry :: "ApiEntry obj \<Rightarrow> string list \<Rightarrow> ApiEntry \<Rightarrow> error + ApiEntry obj" where
  "api_entry entries keys entry =
     (if length keys > 1 then
        let parent0 = (case obj_get entries (key_at keys 0) of None \<Rightarrow> api_placeholder | Some p \<Rightarrow> p);
            parent = (case subroutes parent0 of
                        None \<Rightarrow> ApiEntry (api_base parent0) (Some [])
                      | Some sr \<Rightarrow> parent0)
        in (case api_descend parent (tl keys) entry of
              Inl e \<Rightarrow> Inl e
            | Inr parent' \<Rightarrow> Inr (obj_set entries (key_at keys 0) parent'))
      else Inr (obj_set entries (key_at keys 0) entry))"

section \<open>The file system\<close>

text \<open>
  What the scanner sees of the disk: regular files, directories with their entries in the
  order \<open>readdir\<close> lists them, and anything else (sockets, devices). The tree is rooted
  at the working directory. A lookup fails with \<open>ENOENT\<close> on a missing name and with
  \<open>ENOTDIR\<close> below something that is not a directory; other failures (permissions,
  input/output) are outside the model.
\<close>

datatype fsnode = FsFile | FsDir "(string \<times> fsnode) list" | FsOther

datatype stat_result = ENOENT | ENOTDIR | Found fsnode

fun fs_stat :: "fsnode \<Rightarrow> string list \<Rightarrow> stat_result" where
  "fs_stat node [] = Found node"
| "fs_stat (FsDir listing) (seg # segs) =
     (case map_of listing seg of None \<Rightarrow> ENOENT | Some child \<Rightarrow> fs_stat child segs)"
| "fs_stat node (seg # segs) = ENOTDIR"

text \<open>\<open>fs.readdir\<close>: the entries of a directory, or the error code.\<close>

definition readdir :: "fsnode \<Rightarrow> string list \<Rightarrow> string + (string \<times> fsnode) list" where
  "readdir root p =
     (case fs_stat root p of
        ENOENT \<Rightarrow> Inl ''ENOENT''
      | ENOTDIR \<Rightarrow> Inl ''ENOTDIR''
      | Found (FsDir listing) \<Rightarrow> Inr listing
      | Found other \<Rightarrow> Inl ''ENOTDIR'')"

text \<open>The absolute path of segments below the working directory.\<close>

definition abs_path :: "string \<Rightarrow> string list \<Rightarrow> string" where
  "abs_path cwd segs = (if cwd = ''/'' then [] else cwd) @ concat (map (\<lambda>seg. CHR ''/'' # seg) segs)"

fun height :: "fsnode \<Rightarrow> nat" where
  "height (FsDir listing) = Suc (foldr (\<lambda>p m. max (height (snd p)) m) listing 0)"
| "height node = 0"

section \<open>Scanning a directory\<close>

text \<open>
  \<open>scanDir\<close> sorts the entries of a directory into files with an allowed extension and
  directories, reads the sibling \<open>modules\<close> directory when asked to, then calls the
  callback on the files, recurses into the directories (without modules) and finally into
  the type directory of every module (with the module's own modules).

  The model returns the calls of the callback in the order they are made; the callers run
  the callback over them. The entries of a directory and the callback are taken in listing
  order, the order in which the source starts them; the source awaits them together.

  A module whose name has a dot carries a mode after its last dot; it is skipped when that
  mode is not the current one.
\<close>

definition module_mode :: "string \<Rightarrow> string \<Rightarrow> string" where
  "module_mode modeGet moduleName =
     (if CHR ''.'' \<in> set moduleName
      then rev (takeWhile (\<lambda>c. c \<noteq> CHR ''.'') (rev moduleName))
      else modeGet)"

definition module_skipped :: "string \<Rightarrow> (string \<Rightarrow> bool) \<Rightarrow> string \<Rightarrow> bool" where
  "module_skipped modeGet modeIs moduleName =
     (let mode = module_mode modeGet moduleName in mode \<noteq> [] \<and> \<not> modeIs mode)"

definition scan_files :: "string list \<Rightarrow> (string \<times> fsnode) list \<Rightarrow> string list" where
  "scan_files exts directory =
     map fst (filter (\<lambda>(file, node). node = FsFile \<and> List.member exts (extname file)) directory)"

definition subdir :: "(string \<times> fsnode) list \<Rightarrow> string \<Rightarrow> (string \<times> fsnode) list option" where
  "subdir listing name =
     (case map_of listing name of Some (FsDir children) \<Rightarrow> Some children | _ \<Rightarrow> None)"

function scanDir ::
  "string list \<Rightarrow> string \<Rightarrow> (string \<Rightarrow> bool) \<Rightarrow> string \<Rightarrow> string \<Rightarrow>
   string list \<Rightarrow> string list \<Rightarrow> string list \<Rightarrow> (string \<times> fsnode) list \<Rightarrow>
   string list \<Rightarrow> (string \<times> fsnode) list \<Rightarrow> ScannedFile list" where
  "scanDir exts modeGet modeIs type cwd directoryPath recursionKeys recursionModuleKeys directory
      modulesPath modulesDirectory =
     map (\<lambda>file. \<lparr>fileKeys = recursionKeys @ [basename_ext file],
                  fullPath = abs_path cwd (directoryPath @ [file]),
                  moduleKeys = recursionModuleKeys\<rparr>)
         (scan_files exts directory)
     @ concat (map (\<lambda>p. case snd p of
                          FsDir children \<Rightarrow>
                            scanDir exts modeGet modeIs type cwd (directoryPath @ [fst p])
                              (recursionKeys @ [fst p]) recursionModuleKeys children [] []
                        | _ \<Rightarrow> [])
                   directory)
     @ concat (map (\<lambda>p. if module_skipped modeGet modeIs (fst p) then []
                        else case snd p of
                          FsDir moduleListing \<Rightarrow>
                            (case subdir moduleListing type of
                               Some typeListing \<Rightarrow>
                                 scanDir exts modeGet modeIs type cwd (modulesPath @ [fst p, type]) []
                                   (recursionModuleKeys @ [fst p]) typeListing
                                   (modulesPath @ [fst p, ''modules''])
                                   (case subdir moduleListing ''modules'' of
                                      Some nested \<Rightarrow> nested | None \<Rightarrow> [])
                             | None \<Rightarrow> [])
                        | _ \<Rightarrow> [])
                   modulesDirectory)"
  by pat_completeness auto

lemma height_mem: "(k, n) \<in> set l \<Longrightarrow> height n < height (FsDir l)"
  by (induction l) auto

lemma subdir_height: "subdir l k = Some c \<Longrightarrow> height (FsDir c) < height (FsDir l)"
  unfolding subdir_def
  by (auto split: option.splits fsnode.splits dest!: map_of_SomeD height_mem)

termination scanDir
  apply (relation "measure (\<lambda>(exts, modeGet, modeIs, type, cwd, directoryPath, recursionKeys,
      recursionModuleKeys, directory, modulesPath, modulesDirectory).
      max (height (FsDir directory)) (height (FsDir modulesDirectory)))")
    apply simp
  subgoal for exts modeGet modeIs type cwd directoryPath recursionKeys recursionModuleKeys
      directory modulesPath modulesDirectory p children
    using height_mem[of "fst p" "snd p" directory] by (cases p) auto
  subgoal for exts modeGet modeIs type cwd directoryPath recursionKeys recursionModuleKeys
      directory modulesPath modulesDirectory p moduleListing typeListing
    using height_mem[of "fst p" "snd p" modulesDirectory]
      subdir_height[of moduleListing type typeListing]
      subdir_height[of moduleListing "''modules''"]
    by (cases p) (auto split: option.splits)
  done

declare scanDir.simps [simp del]

text \<open>
  The first call: the directory of the type below the build directory (a configured one,
  or \<open>.robo/build\<close>) and the modules of \<open>.robo/build/modules\<close>. A missing primary
  directory is empty; any other failure to read it is thrown. A modules directory that
  cannot be read has no modules.
\<close>

definition scanDir_root ::
  "string list \<Rightarrow> string \<Rightarrow> (string \<Rightarrow> bool) \<Rightarrow> string \<Rightarrow> fsnode \<Rightarrow> string list option \<Rightarrow>
   string \<Rightarrow> error + ScannedFile list" where
  "scanDir_root exts modeGet modeIs cwd root buildDirectory type =
     (let buildDir = (case buildDirectory of None \<Rightarrow> [''.robo'', ''build''] | Some d \<Rightarrow> d);
          directoryPath = buildDir @ [type];
          modulesPath = [''.robo'', ''build'', ''modules''];
          modulesDirectory = (case readdir root modulesPath of Inl code \<Rightarrow> [] | Inr listing \<Rightarrow> listing)
      in case readdir root directoryPath of
           Inr directory \<Rightarrow>
             Inr (scanDir exts modeGet modeIs type cwd directoryPath [] [] directory
                    modulesPath modulesDirectory)
         | Inl code \<Rightarrow>
             if code = ''ENOENT''
             then Inr (scanDir exts modeGet modeIs type cwd directoryPath [] [] []
                         modulesPath modulesDirectory)
             else Inl (FsError code))"

section \<open>Configuration and manifest\<close>

text \<open>
  A plugin is a package name, or an array whose first element is the name and whose second
  element, when there is one, holds the options.
\<close>

datatype Plugin = PluginName string | PluginArray string "jsval list"

fun pluginName :: "Plugin \<Rightarrow> string" where
  "pluginName (PluginName n) = n"
| "pluginName (PluginArray n rest) = n"

text \<open>Permissions are a list of names or a number; an absent list is the empty list.\<close>

datatype Permissions = PermissionsNumber int | PermissionsStrings "string list"

fun permission_strings :: "Permissions \<Rightarrow> string list" where
  "permission_strings (PermissionsStrings ps) = ps"
| "permission_strings (PermissionsNumber n) = []"

record Invite =
  inv_autoPermissions :: "bool option"
  inv_permissions :: Permissions
  inv_scopes :: "string list"

text \<open>
  The fields of the configuration the manifest code reads: the plugins, the invite
  settings, the values of \<open>clientOptions.intents\<close>, the seed's description when there is a
  seed, the experimental build directory (as path segments), and everything else.
\<close>

record Config =
  cfg_plugins :: "Plugin list option"
  cfg_invite :: "Invite option"
  cfg_intents :: "jsval list"
  cfg_seed :: "jsval option"
  cfg_buildDirectory :: "string list option"
  cfg_other :: "jsval obj"

datatype RoboType = TypePlugin | TypeRobo

record RoboInfo =
  robo_config :: "Config option"
  robo_language :: "string option"
  robo_mode :: "string option"
  robo_seed :: "jsval option"
  robo_type :: RoboType
  robo_updatedAt :: "string option"
  robo_version :: "string option"

record Manifest =
  m_README :: string
  m_robo :: RoboInfo
  m_api :: "ApiEntry obj"
  m_commands :: "CommandEntry obj"
  m_context_message :: "CommandEntry obj"
  m_context_user :: "CommandEntry obj"
  m_events :: "BaseConfig list obj"
  m_permissions :: Permissions
  m_middleware :: "BaseConfig list"
  m_scopes :: "string list"

definition BASE_MANIFEST :: "string \<Rightarrow> Manifest" where
  "BASE_MANIFEST mode =
     \<lparr>m_README = ''This file was automatically generated by Robo.js - do not edit manually.'',
      m_robo = \<lparr>robo_config = None, robo_language = Some ''javascript'', robo_mode = Some mode,
                robo_seed = None, robo_type = TypeRobo, robo_updatedAt = None,
                robo_version = None\<rparr>,
      m_api = [], m_commands = [], m_context_message = [], m_context_user = [],
      m_events = [], m_permissions = PermissionsStrings [], m_middleware = [], m_scopes = []\<rparr>"

definition INTENT_PERMISSIONS :: "string list obj" where
  "INTENT_PERMISSIONS =
     [(''DirectMessages'', []),
      (''DirectMessageReactions'', []),
      (''DirectMessageTyping'', []),
      (''Guilds'', [''ViewChannel'']),
      (''GuildMembers'', []),
      (''GuildBans'', [''BanMembers'', ''ViewAuditLog'']),
      (''GuildEmojisAndStickers'', [''ManageEmojisAndStickers'']),
      (''GuildIntegrations'', [''ManageGuild'', ''ViewAuditLog'']),
      (''GuildWebhooks'', [''ManageWebhooks'', ''ViewAuditLog'']),
      (''GuildInvites'', [''CreateInstantInvite'', ''ManageGuild'']),
      (''GuildVoiceStates'', [''Connect'', ''Speak'', ''MuteMembers'', ''DeafenMembers'',
                              ''MoveMembers'', ''UseVAD'']),
      (''GuildPresences'', []),
      (''GuildMessages'', [''ReadMessageHistory'', ''SendMessages'']),
      (''GuildMessageReactions'', [''ReadMessageHistory'', ''AddReactions'']),
      (''GuildMessageTyping'', [''ReadMessageHistory''])]"

section \<open>Sorting and duplicates\<close>

text \<open>
  \<open>xs.sort((a, b) => a.localeCompare(b))\<close>: the sort is stable, so for a comparison that
  orders the strings it is the insertion of every element before the first one it does not
  exceed. \<open>[...new Set(xs)]\<close> keeps the first occurrence of every element.
\<close>

fun insert_by :: "('a \<Rightarrow> 'a \<Rightarrow> int) \<Rightarrow> 'a \<Rightarrow> 'a list \<Rightarrow> 'a list" where
  "insert_by cmp x [] = [x]"
| "insert_by cmp x (y # ys) = (if cmp x y \<le> 0 then x # y # ys else y # insert_by cmp x ys)"

definition sort_by :: "('a \<Rightarrow> 'a \<Rightarrow> int) \<Rightarrow> 'a list \<Rightarrow> 'a list" where
  "sort_by cmp xs = foldr (insert_by cmp) xs []"

definition unique :: "'a list \<Rightarrow> 'a list" where
  "unique xs = fold (\<lambda>x seen. if List.member seen x then seen else seen @ [x]) xs []"

text \<open>\<open>Object.fromEntries(Object.entries(m).sort(([a], [b]) => a.localeCompare(b)))\<close>.\<close>

definition sort_keys :: "(string \<Rightarrow> string \<Rightarrow> int) \<Rightarrow> 'a obj \<Rightarrow> 'a obj" where
  "sort_keys localeCompare m = obj_copy (sort_by (\<lambda>p q. localeCompare (fst p) (fst q)) m)"

section \<open>Redacting plugin options\<close>

text \<open>
  \<open>typeof v === 'object'\<close> holds of objects, arrays and \<open>null\<close>. The keys a \<open>for ... in\<close>
  loop with the own-property check visits: the keys of an object, the indices of an array,
  none of \<open>null\<close>.
\<close>

fun typeof_object :: "jsval \<Rightarrow> bool" where
  "typeof_object (Object props) = True"
| "typeof_object (Array xs) = True"
| "typeof_object Null = True"
| "typeof_object v = False"

fun show_nat :: "nat \<Rightarrow> string" where
  "show_nat n =
     (if n < 10 then [char_of (48 + n)]
      else show_nat (n div 10) @ [char_of (48 + n mod 10)])"

fun own_keys :: "jsval \<Rightarrow> string list" where
  "own_keys (Object props) = map fst props"
| "own_keys (Array xs) = map show_nat [0..<length xs]"
| "own_keys v = []"

definition redact_options :: "jsval \<Rightarrow> jsval obj" where
  "redact_options pluginOptions =
     fold (\<lambda>key redactedObj. obj_set redactedObj key (String ''[REDACTED]''))
          (own_keys pluginOptions) []"

fun redact_plugin :: "Plugin \<Rightarrow> Plugin" where
  "redact_plugin (PluginName n) = PluginName n"
| "redact_plugin (PluginArray n rest) =
     (let pluginOptions = (case rest of [] \<Rightarrow> Undefined | opts # others \<Rightarrow> opts)
      in if typeof_object pluginOptions
         then PluginArray n [Object (redact_options pluginOptions)]
         else PluginArray n rest)"

definition redactPluginOptions :: "Config \<Rightarrow> Config" where
  "redactPluginOptions config =
     (case cfg_plugins config of
        None \<Rightarrow> config
      | Some plugins \<Rightarrow> config\<lparr>cfg_plugins := Some (map redact_plugin plugins)\<rparr>)"

text \<open>
  Two plugins that differ at most in the values of an options object, and two
  configurations that differ at most in this way in their plugins.
\<close>

fun only_option_values_differ :: "Plugin \<Rightarrow> Plugin \<Rightarrow> bool" where
  "only_option_values_differ (PluginArray n (Object a # rest)) (PluginArray n' (Object b # rest')) =
     (n = n' \<and> map fst a = map fst b \<and> rest = rest')"
| "only_option_values_differ p p' = (p = p')"

definition configs_differ_in_option_values :: "Config \<Rightarrow> Config \<Rightarrow> bool" where
  "configs_differ_in_option_values c c' =
     (case (cfg_plugins c, cfg_plugins c') of
        (Some ps, Some ps') \<Rightarrow>
          list_all2 only_option_values_differ ps ps' \<and> c' = c\<lparr>cfg_plugins := Some ps'\<rparr>
      | _ \<Rightarrow> c' = c)"

section \<open>Permissions and scopes\<close>

definition generatePermissions :: "(string \<Rightarrow> string \<Rightarrow> int) \<Rightarrow> Config \<Rightarrow> string list" where
  "generatePermissions localeCompare config =
     (let autoPermissions =
            (case cfg_invite config of
               None \<Rightarrow> True
             | Some invite \<Rightarrow> (case inv_autoPermissions invite of None \<Rightarrow> True | Some b \<Rightarrow> b));
          fromIntents =
            (if autoPermissions
             then concat (map (\<lambda>intent. case intent of
                                  String name \<Rightarrow>
                                    (case obj_get INTENT_PERMISSIONS name of
                                       None \<Rightarrow> [] | Some intentPermissions \<Rightarrow> intentPermissions)
                                | _ \<Rightarrow> [])
                              (cfg_intents config))
             else []);
          configPermissions =
            (case cfg_invite config of
               None \<Rightarrow> []
             | Some invite \<Rightarrow> permission_strings (inv_permissions invite));
          permissions = fromIntents @ configPermissions
      in filter (\<lambda>permission. permission \<noteq> []) (unique (sort_by localeCompare permissions)))"

definition generateScopes :: "(string \<Rightarrow> string \<Rightarrow> int) \<Rightarrow> Config \<Rightarrow> Manifest \<Rightarrow> string list" where
  "generateScopes localeCompare config newManifest =
     (let scopes = [''bot'']
            @ (if m_commands newManifest \<noteq> [] then [''applications.commands''] else [])
            @ (case cfg_invite config of None \<Rightarrow> [] | Some invite \<Rightarrow> inv_scopes invite)
      in filter (\<lambda>scope. scope \<noteq> []) (unique (sort_by localeCompare scopes)))"

section \<open>The environment of a build\<close>

text \<open>
  Everything a build reads from outside: the working directory and the tree below it, the
  value objects of the source modules, the loaded configuration, the installed packages
  and their manifests, the string comparison of the locale, the clock, the package
  version, the mode, the language of the project, the allowed extensions, the manifest of
  the previous build and the comparison of command sets (defined in modules that are not
  part of the sources at hand).
\<close>

datatype DiffKind = Added | Removed | Changed

record Env =
  env_cwd :: string
  env_fs :: fsnode
  env_importValue :: "string \<Rightarrow> jsval obj"
  env_config :: Config
  env_findPackagePath :: "string \<Rightarrow> string option"
  env_useManifest :: "string \<Rightarrow> string \<Rightarrow> Manifest"
  env_manifestFile :: "string \<Rightarrow> Manifest option"
  env_localeCompare :: "string \<Rightarrow> string \<Rightarrow> int"
  env_now :: string
  env_version :: string
  env_mode :: string
  env_modeIs :: "string \<Rightarrow> bool"
  env_isTypescript :: bool
  env_extensions :: "string list"
  env_oldManifest :: Manifest
  env_findCommandDifferences :: "CommandEntry obj \<Rightarrow> CommandEntry obj \<Rightarrow> DiffKind \<Rightarrow> string list"

section \<open>Reading the plugins' manifests\<close>

text \<open>
  One round of the loop of \<open>readPluginManifest\<close>: the records are spread over each other,
  the events merged, the lists appended. A plugin's permissions count when they are a list.
\<close>

definition merge_plugin :: "Manifest \<Rightarrow> Manifest \<Rightarrow> Manifest" where
  "merge_plugin pluginsManifest manifest =
     pluginsManifest
       \<lparr>m_api := obj_spread (m_api pluginsManifest) (m_api manifest),
        m_commands := obj_spread (m_commands pluginsManifest) (m_commands manifest),
        m_context_message := obj_spread (m_context_message pluginsManifest) (m_context_message manifest),
        m_context_user := obj_spread (m_context_user pluginsManifest) (m_context_user manifest),
        m_events := mergeEvents (m_events pluginsManifest) (m_events manifest),
        m_permissions := PermissionsStrings
           (permission_strings (m_permissions pluginsManifest) @ permission_strings (m_permissions manifest)),
        m_middleware := m_middleware pluginsManifest @ m_middleware manifest,
        m_scopes := m_scopes pluginsManifest @ m_scopes manifest\<rparr>"

text \<open>A plugin that is not installed is passed over.\<close>

definition readPluginManifest :: "Env \<Rightarrow> Plugin list option \<Rightarrow> Manifest" where
  "readPluginManifest env plugins =
     fold (\<lambda>plugin pluginsManifest.
             case env_findPackagePath env (pluginName plugin) of
               None \<Rightarrow> pluginsManifest
             | Some packagePath \<Rightarrow>
                 merge_plugin pluginsManifest (env_useManifest env packagePath (pluginName plugin)))
          (case plugins of None \<Rightarrow> [] | Some ps \<Rightarrow> ps)
          (BASE_MANIFEST (env_mode env))"

text \<open>
  The second manifest module of the repository loads a plugin's manifest itself and marks
  its commands and events as coming from the plugin; its loop spreads the events instead
  of merging them. The manifest file is \<open>None\<close> when missing or blank.
\<close>

definition BASE_MANIFEST_alt :: Manifest where
  "BASE_MANIFEST_alt =
     \<lparr>m_README = ''This file was automatically generated by Robo.js - do not edit manually.'',
      m_robo = \<lparr>robo_config = None, robo_language = None, robo_mode = None,
                robo_seed = None, robo_type = TypeRobo, robo_updatedAt = None,
                robo_version = None\<rparr>,
      m_api = [], m_commands = [], m_context_message = [], m_context_user = [],
      m_events = [], m_permissions = PermissionsStrings [], m_middleware = [], m_scopes = []\<rparr>"

definition loadManifest_alt :: "Env \<Rightarrow> string \<Rightarrow> string \<Rightarrow> Manifest" where
  "loadManifest_alt env name basePath =
     (case env_manifestFile env (if basePath = [] then ''.'' else basePath) of
        None \<Rightarrow> BASE_MANIFEST_alt
      | Some manifest \<Rightarrow>
          if name \<noteq> [] \<and> basePath \<noteq> [] then
            manifest
              \<lparr>m_commands := map (\<lambda>(key, cmd). (key, CommandEntry
                    ((command_base cmd)\<lparr>bc_auto := True, bc_plugin := Some (name, basePath)\<rparr>)
                    (subcommands cmd))) (m_commands manifest),
               m_events := map (\<lambda>(key, configs). (key, map (\<lambda>eventConfig.
                    eventConfig\<lparr>bc_auto := True,
                      bc_plugin := (case bc_plugin eventConfig of
                                      None \<Rightarrow> Some (name, basePath) | Some own \<Rightarrow> Some own)\<rparr>) configs))
                    (m_events manifest)\<rparr>
          else manifest)"

definition merge_plugin_alt :: "Manifest \<Rightarrow> Manifest \<Rightarrow> Manifest" where
  "merge_plugin_alt pluginsManifest manifest =
     pluginsManifest
       \<lparr>m_commands := obj_spread (m_commands pluginsManifest) (m_commands manifest),
        m_events := obj_spread (m_events pluginsManifest) (m_events manifest),
        m_permissions := PermissionsStrings
           (permission_strings (m_permissions pluginsManifest) @ permission_strings (m_permissions manifest)),
        m_scopes := m_scopes pluginsManifest @ m_scopes manifest\<rparr>"

definition readPluginManifest_alt :: "Env \<Rightarrow> Plugin list option \<Rightarrow> Manifest" where
  "readPluginManifest_alt env plugins =
     fold (\<lambda>plugin pluginsManifest.
             let packagePath = (case env_findPackagePath env (pluginName plugin) of
                                  None \<Rightarrow> [] | Some found \<Rightarrow> found)
             in merge_plugin_alt pluginsManifest (loadManifest_alt env (pluginName plugin) packagePath))
          (case plugins of None \<Rightarrow> [] | Some ps \<Rightarrow> ps)
          BASE_MANIFEST_alt"

section \<open>Generating the entries of a type\<close>

text \<open>
  \<open>generateEntries\<close> scans the directory of the type and runs the callback on every file,
  starting from no entries. A failure with code \<open>ENOENT\<close> yields no entries; any other
  failure is passed on.
\<close>

definition scan :: "Env \<Rightarrow> string \<Rightarrow> error + ScannedFile list" where
  "scan env type =
     scanDir_root (env_extensions env) (env_mode env) (env_modeIs env) (env_cwd env) (env_fs env)
       (cfg_buildDirectory (env_config env)) type"

definition file_entry :: "Env \<Rightarrow> string list \<Rightarrow> ScannedFile \<Rightarrow> BaseConfig" where
  "file_entry env generatedKeys f = make_entry (env_cwd env) (env_importValue env) generatedKeys f"

fun catch_ENOENT :: "error + 'a list \<Rightarrow> error + 'a list" where
  "catch_ENOENT (Inl (FsError code)) = (if code = ''ENOENT'' then Inr [] else Inl (FsError code))"
| "catch_ENOENT r = r"

definition generateEntries_api :: "Env \<Rightarrow> string list \<Rightarrow> error + ApiEntry obj" where
  "generateEntries_api env generatedKeys =
     catch_ENOENT (bind_err (scan env ''api'')
       (\<lambda>files. fold_err (\<lambda>entries f.
            api_entry entries (fileKeys f) (ApiEntry (file_entry env generatedKeys f) None))
          files []))"

definition generateEntries_commands :: "Env \<Rightarrow> string list \<Rightarrow> error + CommandEntry obj" where
  "generateEntries_commands env generatedKeys =
     catch_ENOENT (bind_err (scan env ''commands'')
       (\<lambda>files. fold_err (\<lambda>entries f.
            commands_entry entries (fileKeys f) (CommandEntry (file_entry env generatedKeys f) None))
          files []))"

definition generateEntries_context :: "Env \<Rightarrow> string list \<Rightarrow> error + CommandEntry obj obj" where
  "generateEntries_context env generatedKeys =
     catch_ENOENT (bind_err (scan env ''context'')
       (\<lambda>files. Inr (fold (\<lambda>f entries.
            context_entry entries (fileKeys f) (CommandEntry (file_entry env generatedKeys f) None))
          files [])))"

definition generateEntries_events :: "Env \<Rightarrow> string list \<Rightarrow> error + BaseConfig list obj" where
  "generateEntries_events env generatedKeys =
     catch_ENOENT (bind_err (scan env ''events'')
       (\<lambda>files. Inr (fold (\<lambda>f entries.
            events_entry entries (fileKeys f) (file_entry env generatedKeys f))
          files [])))"

definition generateEntries_middleware :: "Env \<Rightarrow> string list \<Rightarrow> error + BaseConfig obj" where
  "generateEntries_middleware env generatedKeys =
     catch_ENOENT (bind_err (scan env ''middleware'')
       (\<lambda>files. Inr (fold (\<lambda>f entries.
            middleware_entry entries (fileKeys f) (file_entry env generatedKeys f))
          files [])))"

section \<open>Modules in the scan\<close>





section \<open>Generating the manifest\<close>

text \<open>The keys of the generated default commands, context commands and events.\<close>

record DefaultGen =
  dg_commands :: "string list"
  dg_context :: "string list"
  dg_events :: "string list"

text \<open>
  What a run leaves on disk: directories it creates and files it writes. The text written
  is the JSON of the manifest, so the manifest stands for it.
\<close>

datatype fs_op = Mkdir string | WriteFile string Manifest

definition new_manifest ::
  "Env \<Rightarrow> RoboType \<Rightarrow> Manifest \<Rightarrow> ApiEntry obj \<Rightarrow> CommandEntry obj \<Rightarrow> CommandEntry obj obj \<Rightarrow>
   BaseConfig list obj \<Rightarrow> BaseConfig list \<Rightarrow> Manifest" where
  "new_manifest env type pluginsManifest api commands context events middleware =
     (let config = env_config env in
      \<lparr>m_README = m_README pluginsManifest,
       m_robo = \<lparr>robo_config = Some (redactPluginOptions config),
                 robo_language = Some (if env_isTypescript env then ''typescript'' else ''javascript''),
                 robo_mode = Some (env_mode env),
                 robo_seed = (case cfg_seed config of
                                None \<Rightarrow> None
                              | Some description \<Rightarrow> Some (Object [(''description'', description)])),
                 robo_type = type,
                 robo_updatedAt = Some (env_now env),
                 robo_version = Some (env_version env)\<rparr>,
       m_api = obj_spread (m_api pluginsManifest) api,
       m_commands = obj_spread (m_commands pluginsManifest) commands,
       m_context_message = obj_spread (m_context_message pluginsManifest)
          (case obj_get context ''message'' of None \<Rightarrow> [] | Some r \<Rightarrow> r),
       m_context_user = obj_spread (m_context_user pluginsManifest)
          (case obj_get context ''user'' of None \<Rightarrow> [] | Some r \<Rightarrow> r),
       m_events = mergeEvents (m_events pluginsManifest) events,
       m_permissions = m_permissions pluginsManifest,
       m_middleware = m_middleware pluginsManifest @ middleware,
       m_scopes = m_scopes pluginsManifest\<rparr>)"

text \<open>Permissions and scopes are then set from the configuration, and the keys sorted.\<close>

definition finish_manifest :: "Env \<Rightarrow> Manifest \<Rightarrow> Manifest" where
  "finish_manifest env newManifest =
     (let config = env_config env;
          withPermissions = newManifest
            \<lparr>m_permissions := PermissionsStrings (generatePermissions (env_localeCompare env) config)\<rparr>;
          withScopes = withPermissions
            \<lparr>m_scopes := generateScopes (env_localeCompare env) config withPermissions\<rparr>
      in withScopes
           \<lparr>m_api := sort_keys (env_localeCompare env) (m_api withScopes),
            m_commands := sort_keys (env_localeCompare env) (m_commands withScopes),
            m_events := sort_keys (env_localeCompare env) (m_events withScopes)\<rparr>)"

definition generateManifest :: "Env \<Rightarrow> DefaultGen \<Rightarrow> RoboType \<Rightarrow> error + (Manifest \<times> fs_op list)" where
  "generateManifest env generatedDefaults type =
     (let config = env_config env;
          pluginsManifest = (if type = TypePlugin then BASE_MANIFEST (env_mode env)
                             else readPluginManifest env (cfg_plugins config))
      in bind_err (generateEntries_api env []) (\<lambda>api.
         bind_err (generateEntries_commands env (dg_commands generatedDefaults)) (\<lambda>commands.
         bind_err (generateEntries_context env (dg_context generatedDefaults)) (\<lambda>context.
         bind_err (generateEntries_events env (dg_events generatedDefaults)) (\<lambda>events.
         bind_err (generateEntries_middleware env []) (\<lambda>middlewareEntries.
           let newManifest = finish_manifest env
                 (new_manifest env type pluginsManifest api commands context events
                    (map snd middlewareEntries))
           in Inr (newManifest,
                   [Mkdir ''.robo'', WriteFile ''.robo/manifest.json'' newManifest])))))))"

text \<open>The accumulated plugin manifest a build of the given type starts from.\<close>

definition plugins_manifest :: "Env \<Rightarrow> RoboType \<Rightarrow> Manifest" where
  "plugins_manifest env type =
     (if type = TypePlugin then BASE_MANIFEST (env_mode env)
      else readPluginManifest env (cfg_plugins (env_config env)))"

text \<open>
  The manifests of the installed plugins of the configuration, in the order of the
  plugins; a plugin build reads none.
\<close>

definition installed_manifests :: "Env \<Rightarrow> RoboType \<Rightarrow> Manifest list" where
  "installed_manifests env type =
     (if type = TypePlugin then []
      else concat (map (\<lambda>plugin.
              case env_findPackagePath env (pluginName plugin) of
                None \<Rightarrow> []
              | Some packagePath \<Rightarrow> [env_useManifest env packagePath (pluginName plugin)])
            (case cfg_plugins (env_config env) of None \<Rightarrow> [] | Some ps \<Rightarrow> ps)))"

text \<open>Among a sequence of records, the binding of a key in the last record that has it.\<close>

definition latest :: "'a obj list \<Rightarrow> string \<Rightarrow> 'a option" where
  "latest ms k = fold (\<lambda>m found. case obj_get m k of None \<Rightarrow> found | Some v \<Rightarrow> Some v) ms None"

definition wf_manifest :: "Manifest \<Rightarrow> bool" where
  "wf_manifest m =
     (wf_obj (m_api m) \<and> wf_obj (m_commands m) \<and> wf_obj (m_context_message m)
      \<and> wf_obj (m_context_user m))"

text \<open>
  The manifest of a successful run, and a manifest with another time of generation.
\<close>

definition manifest_of :: "error + (Manifest \<times> fs_op list) \<Rightarrow> Manifest option" where
  "manifest_of r = (case r of Inl e \<Rightarrow> None | Inr (m, w) \<Rightarrow> Some m)"


section \<open>The build command\<close>

record BuildCommandOptions =
  opt_dev :: bool
  opt_force :: bool
  opt_silent :: bool
  opt_verbose :: bool
  opt_watch :: bool

text \<open>The call \<open>registerCommands(dev, newCommands, changed, added, removed)\<close>.\<close>

datatype register_call =
  RegisterCommands bool "CommandEntry obj" "string list" "string list" "string list"

text \<open>
  \<open>buildAction\<close> refuses watch mode, generates the manifest and compares the commands of
  the previous manifest with the new ones. It yields the manifest, what was written, and
  the call of \<open>registerCommands\<close> when it is made.
\<close>

definition buildAction ::
  "Env \<Rightarrow> BuildCommandOptions \<Rightarrow> DefaultGen \<Rightarrow> error + (Manifest \<times> fs_op list \<times> register_call option)" where
  "buildAction env options generatedFiles =
     (if opt_watch options then Inl (ProcessExit WatchNotAvailable)
      else bind_err (generateManifest env generatedFiles TypeRobo) (\<lambda>(manifest, written).
        let oldCommands = m_commands (env_oldManifest env);
            newCommands = m_commands manifest;
            addedCommands = env_findCommandDifferences env oldCommands newCommands Added;
            removedCommands = env_findCommandDifferences env oldCommands newCommands Removed;
            changedCommands = env_findCommandDifferences env oldCommands newCommands Changed
        in Inr (manifest, written,
                if opt_force options \<or> length addedCommands > 0 \<or> length removedCommands > 0
                   \<or> length changedCommands > 0
                then Some (RegisterCommands (opt_dev options) newCommands changedCommands
                             addedCommands removedCommands)
                else None)))"

section \<open>Shapes of command entries\<close>



text \<open>
  The entries the scan builds are of two kinds: the entry of a file, with a \<open>__path\<close> and
  no \<open>subcommands\<close>, and a group, without \<open>__path\<close> and with \<open>subcommands\<close> of the same
  two kinds.
\<close>

fun command_ok :: "CommandEntry \<Rightarrow> bool" where
  "command_ok (CommandEntry b subs) =
     (case subs of
        None \<Rightarrow> bc_path b \<noteq> None
      | Some m \<Rightarrow> bc_path b = None \<and> list_all (\<lambda>p. command_ok (snd p)) m)"

definition commands_ok :: "CommandEntry obj \<Rightarrow> bool" where
  "commands_ok entries = list_all (\<lambda>p. command_ok (snd p)) entries"

text \<open>An entry, or one below it, has both a \<open>__path\<close> and non-empty \<open>subcommands\<close>.\<close>

fun path_with_subcommands :: "CommandEntry \<Rightarrow> bool" where
  "path_with_subcommands (CommandEntry b subs) =
     (case subs of
        None \<Rightarrow> False
      | Some m \<Rightarrow> (bc_path b \<noteq> None \<and> m \<noteq> []) \<or> list_ex (\<lambda>p. path_with_subcommands (snd p)) m)"

definition commands_clean :: "CommandEntry obj \<Rightarrow> bool" where
  "commands_clean entries = list_all (\<lambda>p. \<not> path_with_subcommands (snd p)) entries"

text \<open>The commands of every installed plugin of the configuration are clean.\<close>

definition plugin_commands_clean :: "Env \<Rightarrow> bool" where
  "plugin_commands_clean env =
     list_all (\<lambda>plugin.
        case env_findPackagePath env (pluginName plugin) of
          None \<Rightarrow> True
        | Some basePath \<Rightarrow> commands_clean (m_commands (env_useManifest env basePath (pluginName plugin))))
      (case cfg_plugins (env_config env) of None \<Rightarrow> [] | Some ps \<Rightarrow> ps)"

text \<open>
  The part of \<open>command_level3\<close> below a parent \<open>b\<close> with subcommands \<open>m\<close>: the parent as it
  is after the file has been stored.
\<close>

definition group3 :: "BaseConfig \<Rightarrow> CommandEntry obj \<Rightarrow> string list \<Rightarrow> CommandEntry \<Rightarrow> error + CommandEntry" where
  "group3 b m keys e =
     (case obj_get m (key_at keys 1) of
        None \<Rightarrow> Inr (CommandEntry b (Some (obj_set m (key_at keys 1)
                   (CommandEntry no_fields (Some [(key_at keys 2, e)])))))
      | Some q \<Rightarrow>
          if truthy_path (command_base q)
          then Inl (ProcessExit (SubcommandWithSubcommandGroups (the_path (command_base q))))
          else (case subcommands q of
                  None \<Rightarrow> Inl TypeError
                | Some m2 \<Rightarrow> Inr (CommandEntry b (Some (obj_set m (key_at keys 1)
                     (CommandEntry (command_base q) (Some (obj_set m2 (key_at keys 2) e))))))))"

section \<open>Shapes of API entries\<close>

text \<open>\<open>parent.subroutes[k1].subroutes[k2]...\<close> along a key path.\<close>

fun route_at :: "ApiEntry \<Rightarrow> string list \<Rightarrow> ApiEntry option" where
  "route_at parent [] = Some parent"
| "route_at parent (k # ks) =
     (case subroutes parent of
        None \<Rightarrow> None
      | Some sr \<Rightarrow> (case obj_get sr k of None \<Rightarrow> None | Some child \<Rightarrow> route_at child ks))"

text \<open>
  Every entry that exists along the key path, the last key apart, has \<open>subroutes\<close>.
\<close>

fun routes_open :: "ApiEntry \<Rightarrow> string list \<Rightarrow> bool" where
  "routes_open parent [] = True"
| "routes_open parent [k] = (subroutes parent \<noteq> None)"
| "routes_open parent (k # ks) =
     (case subroutes parent of
        None \<Rightarrow> False
      | Some sr \<Rightarrow> (case obj_get sr k of None \<Rightarrow> True | Some child \<Rightarrow> routes_open child ks))"

section \<open>A sample project\<close>

text \<open>
  A comparison by character codes stands for the locale's comparison in the examples.
\<close>

fun codepoint_compare :: "string \<Rightarrow> string \<Rightarrow> int" where
  "codepoint_compare [] [] = 0"
| "codepoint_compare [] (y # ys) = -1"
| "codepoint_compare (x # xs) [] = 1"
| "codepoint_compare (x # xs) (y # ys) =
     (if x = y then codepoint_compare xs ys
      else if (of_char x :: nat) < of_char y then -1 else 1)"

text \<open>
  The project of the documentation's file structure page, built: commands \<open>ping\<close>,
  \<open>ban user\<close> and \<open>settings update something\<close>, events \<open>ready\<close> and two \<open>messageCreate\<close>
  handlers, an API route, and three modules: one with a command, one for another mode, and
  one without commands.
\<close>

definition example_fs :: fsnode where
  "example_fs =
     FsDir [(''.robo'', FsDir [(''build'', FsDir [
       (''commands'', FsDir [
          (''ping.js'', FsFile),
          (''notes.txt'', FsFile),
          (''ban'', FsDir [(''user.js'', FsFile)]),
          (''settings'', FsDir [(''update'', FsDir [(''something.js'', FsFile)])])]),
       (''events'', FsDir [
          (''ready.js'', FsFile),
          (''messageCreate'', FsDir [(''dm.js'', FsFile), (''hello.js'', FsFile)])]),
       (''api'', FsDir [(''status'', FsDir [(''health.js'', FsFile)])]),
       (''modules'', FsDir [
          (''extra'', FsDir [(''commands'', FsDir [(''pong.js'', FsFile)])]),
          (''tools.dev'', FsDir [(''commands'', FsDir [(''debug.js'', FsFile)])]),
          (''bare'', FsDir [(''events'', FsDir [])])])])])]"

definition example_config :: Config where
  "example_config =
     \<lparr>cfg_plugins = Some [PluginName ''@robojs/ai'',
                          PluginArray ''@robojs/server'' [Object [(''token'', String ''hunter2'')]]],
      cfg_invite = None,
      cfg_intents = [String ''Guilds'', String ''GuildMessages''],
      cfg_seed = None,
      cfg_buildDirectory = None,
      cfg_other = []\<rparr>"

definition example_env :: Env where
  "example_env =
     \<lparr>env_cwd = ''/bot'',
      env_fs = example_fs,
      env_importValue = (\<lambda>path. []),
      env_config = example_config,
      env_findPackagePath = (\<lambda>name. None),
      env_useManifest = (\<lambda>basePath name. BASE_MANIFEST ''production''),
      env_manifestFile = (\<lambda>basePath. None),
      env_localeCompare = codepoint_compare,
      env_now = ''2024-01-01T00:00:00.000Z'',
      env_version = ''0.9.0'',
      env_mode = ''production'',
      env_modeIs = (\<lambda>mode. mode = ''production''),
      env_isTypescript = False,
      env_extensions = [''.js'', ''.jsx'', ''.ts'', ''.tsx''],
      env_oldManifest = BASE_MANIFEST ''production'',
      env_findCommandDifferences = (\<lambda>oldCommands newCommands kind. [])\<rparr>"

text \<open>The sample configuration with another token for the server plugin.\<close>

definition other_token_config :: Config where
  "other_token_config =
     example_config
       \<lparr>cfg_plugins := Some [PluginName ''@robojs/ai'',
                             PluginArray ''@robojs/server'' [Object [(''token'', String ''swordfish'')]]]\<rparr>"

definition no_defaults :: DefaultGen where
  "no_defaults = \<lparr>dg_commands = [], dg_context = [], dg_events = []\<rparr>"

text \<open>Commands scanned so far: the group \<open>ban\<close> with the subcommand \<open>user\<close>.\<close>

definition ban_group :: "CommandEntry obj" where
  "ban_group =
     [(''ban'', CommandEntry no_fields
                 (Some [(''user'', CommandEntry (no_fields\<lparr>bc_path := Some ''/ban/user.js''\<rparr>) None)]))]"

text \<open>Commands scanned so far: the file of the command \<open>ping\<close> alone.\<close>

definition ping_only :: "CommandEntry obj" where
  "ping_only = [(''ping'', CommandEntry (no_fields\<lparr>bc_path := Some ''/ping.js''\<rparr>) None)]"

definition file_command :: "string \<Rightarrow> CommandEntry" where
  "file_command p = CommandEntry (no_fields\<lparr>bc_path := Some p\<rparr>) None"

text \<open>A project with the API routes \<open>a/b.js\<close> and \<open>a/b/c.js\<close>.\<close>

definition nested_api_fs :: fsnode where
  "nested_api_fs =
     FsDir [(''.robo'', FsDir [(''build'', FsDir [
       (''api'', FsDir [(''a'', FsDir [(''b.js'', FsFile),
                                       (''b'', FsDir [(''c.js'', FsFile)])])])])])]"

definition nested_api_env :: Env where
  "nested_api_env = example_env\<lparr>env_fs := nested_api_fs\<rparr>"

text \<open>
  Build options with nothing set, and the sample project with a comparison of command
  sets that reports the commands missing from the previous manifest as added.
\<close>

definition plain_options :: BuildCommandOptions where
  "plain_options =
     \<lparr>opt_dev = False, opt_force = False, opt_silent = False, opt_verbose = False,
      opt_watch = False\<rparr>"

definition new_command_env :: Env where
  "new_command_env =
     example_env\<lparr>env_findCommandDifferences :=
       (\<lambda>oldCommands newCommands kind.
          if kind = Added
          then filter (\<lambda>k. obj_get oldCommands k = None) (map fst newCommands)
          else [])\<rparr>"


text \<open>
  The sample project with one installed plugin, whose manifest brings two commands (one
  of them also a command of the project), a middleware, a permission and a scope.
\<close>

definition moderation_plugin :: Manifest where
  "moderation_plugin =
     (BASE_MANIFEST ''production'')
       \<lparr>m_commands := [(''kick'', CommandEntry (no_fields\<lparr>bc_path := Some ''/plugin/kick.js''\<rparr>) None),
                       (''ping'', CommandEntry (no_fields\<lparr>bc_path := Some ''/plugin/ping.js''\<rparr>) None)],
        m_permissions := PermissionsStrings [''BanMembers''],
        m_middleware := [no_fields\<lparr>bc_path := Some ''/plugin/audit.js''\<rparr>],
        m_scopes := [''identify'']\<rparr>"

definition moderation_env :: Env where
  "moderation_env =
     example_env
       \<lparr>env_findPackagePath :=
          (\<lambda>name. if name = ''@robojs/ai'' then Some ''/bot/node_modules/@robojs/ai'' else None),
        env_useManifest := (\<lambda>basePath name. moderation_plugin)\<rparr>"




text \<open>An event handler of a plugin, and the manifest of a plugin that handles \<open>ready\<close>.\<close>

definition handler :: "string \<Rightarrow> BaseConfig" where
  "handler p = no_fields\<lparr>bc_path := Some p\<rparr>"

definition ready_plugin :: "string \<Rightarrow> Manifest" where
  "ready_plugin p = BASE_MANIFEST_alt\<lparr>m_events := [(''ready'', [handler p])]\<rparr>"

text \<open>Two installed plugins; each handles \<open>ready\<close> with a handler of its own.\<close>

definition two_plugins_env :: Env where
  "two_plugins_env =
     example_env
       \<lparr>env_findPackagePath := (\<lambda>name. Some (''/bot/node_modules/'' @ name)),
        env_useManifest := (\<lambda>basePath name. ready_plugin (name @ ''/ready.js'')),
        env_manifestFile := (\<lambda>basePath. Some (ready_plugin (basePath @ ''/ready.js'')))\<rparr>"

definition two_plugins :: "Plugin list option" where
  "two_plugins = Some [PluginName ''first'', PluginName ''second'']"

section \<open>Properties of objects\<close>

lemma obj_get_Nil: "obj_get [] k = None"
  by (simp add: obj_get_def)

lemma obj_get_Cons: "obj_get ((k', v) # m) k = (if k = k' then Some v else obj_get m k)"
  by (simp add: obj_get_def)

lemma obj_get_set: "obj_get (obj_set m k v) k' = (if k' = k then Some v else obj_get m k')"
  by (induction m) (auto simp: obj_get_def)

lemma obj_get_None_iff: "obj_get m k = None \<longleftrightarrow> k \<notin> set (map fst m)"
  by (simp add: obj_get_def map_of_eq_None_iff)

lemma keys_obj_set:
  "map fst (obj_set m k v) = (if k \<in> set (map fst m) then map fst m else map fst m @ [k])"
  by (induction m) (auto simp: rev_image_eqI)

lemma wf_obj_set: "wf_obj m \<Longrightarrow> wf_obj (obj_set m k v)"
  by (simp add: wf_obj_def keys_obj_set)

lemma obj_assign_append: "wf_obj (t @ s) \<Longrightarrow> obj_assign t s = t @ s"
proof (induction s arbitrary: t)
  case Nil
  then show ?case by (simp add: obj_assign_def)
next
  case (Cons p s)
  obtain k v where p: "p = (k, v)" by (cases p)
  from Cons.prems p have notin: "k \<notin> set (map fst t)" by (auto simp: wf_obj_def)
  have set_new: "obj_set t k v = t @ [(k, v)]" using notin
    by (induction t) auto
  from Cons.prems p have "wf_obj ((t @ [(k, v)]) @ s)" by (simp add: wf_obj_def)
  from Cons.IH[OF this] show ?case using p set_new by (simp add: obj_assign_def)
qed

lemma obj_copy_wf: "wf_obj a \<Longrightarrow> obj_copy a = a"
  using obj_assign_append[of "[]" a] by (simp add: obj_copy_def)

lemma obj_get_assign:
  "wf_obj s \<Longrightarrow> obj_get (obj_assign t s) k = (case obj_get s k of None \<Rightarrow> obj_get t k | Some v \<Rightarrow> Some v)"
proof (induction s arbitrary: t)
  case Nil
  then show ?case by (simp add: obj_assign_def obj_get_def)
next
  case (Cons p s)
  obtain k' v' where p: "p = (k', v')" by (cases p)
  from Cons.prems p have wf: "wf_obj s" and notin: "k' \<notin> fst ` set s" by (auto simp: wf_obj_def)
  have step: "obj_assign t (p # s) = obj_assign (obj_set t k' v') s"
    using p by (simp add: obj_assign_def)
  have none: "obj_get s k' = None" using notin by (simp add: obj_get_None_iff)
  show ?case
    unfolding step Cons.IH[OF wf] using p none
    by (auto simp: obj_get_set obj_get_Cons split: option.splits)
qed

lemma wf_obj_assign: "wf_obj t \<Longrightarrow> wf_obj (obj_assign t s)"
  unfolding obj_assign_def
  by (induction s arbitrary: t) (auto simp: wf_obj_set)

lemma wf_obj_copy: "wf_obj (obj_copy a)"
  using wf_obj_assign[of "[]" a] by (simp add: obj_copy_def wf_obj_def)

lemma wf_obj_spread: "wf_obj (obj_spread a b)"
  by (simp add: obj_spread_def wf_obj_assign wf_obj_copy)

lemma obj_get_spread:
  "wf_obj a \<Longrightarrow> wf_obj b \<Longrightarrow>
   obj_get (obj_spread a b) k = (case obj_get b k of None \<Rightarrow> obj_get a k | Some v \<Rightarrow> Some v)"
  by (simp add: obj_spread_def obj_get_assign obj_copy_wf)

section \<open>Events under merging\<close>

lemma merge_event_get:
  "obj_get (merge_event (k', v') m) k =
     (if k = k' then Some ((case obj_get m k' of None \<Rightarrow> [] | Some b \<Rightarrow> b) @ v') else obj_get m k)"
  by (simp add: merge_event_def obj_get_set)

lemma mergeEvents_fold_get:
  "wf_obj new \<Longrightarrow>
   obj_get (fold merge_event new m) k =
   (case obj_get new k of
      None \<Rightarrow> obj_get m k
    | Some n \<Rightarrow> Some ((case obj_get m k of None \<Rightarrow> [] | Some b \<Rightarrow> b) @ n))"
proof (induction new arbitrary: m)
  case Nil
  then show ?case by (simp add: obj_get_Nil)
next
  case (Cons p new)
  obtain k' v' where p: "p = (k', v')" by (cases p)
  from Cons.prems p have wf: "wf_obj new" and none: "obj_get new k' = None"
    by (auto simp: wf_obj_def obj_get_None_iff)
  show ?case
    using p none by (auto simp: Cons.IH[OF wf] merge_event_get obj_get_Cons split: option.splits)
qed

text \<open>
  \<open>mergeEvents\<close> itself accumulates: every event name of the new record is bound to the
  base array (or the empty array) followed by the new array, and every other name keeps
  its base array.
\<close>

lemma mergeEvents_get:
  "wf_obj base \<Longrightarrow> wf_obj new \<Longrightarrow>
   obj_get (mergeEvents base new) k =
   (case obj_get new k of
      None \<Rightarrow> obj_get base k
    | Some n \<Rightarrow> Some ((case obj_get base k of None \<Rightarrow> [] | Some b \<Rightarrow> b) @ n))"
  unfolding mergeEvents_def by (simp add: mergeEvents_fold_get obj_copy_wf)

lemma wf_merge_event: "wf_obj m \<Longrightarrow> wf_obj (merge_event p m)"
  by (simp add: merge_event_def wf_obj_set Let_def)

lemma wf_mergeEvents: "wf_obj (mergeEvents base new)"
proof -
  have "wf_obj m \<Longrightarrow> wf_obj (fold merge_event new m)" for m
    by (induction new arbitrary: m) (auto simp: wf_merge_event)
  then show ?thesis by (simp add: mergeEvents_def wf_obj_copy)
qed

text \<open>
  The first manifest module folds the plugins with \<open>mergeEvents\<close>: with two plugins that
  both handle \<open>ready\<close>, both handlers are kept.
\<close>

lemma readPluginManifest_keeps_both:
  "obj_get (m_events (readPluginManifest two_plugins_env two_plugins)) ''ready'' =
     Some [handler ''first/ready.js'', handler ''second/ready.js'']"
  by (simp add: readPluginManifest_def two_plugins_env_def two_plugins_def example_env_def
      merge_plugin_def ready_plugin_def BASE_MANIFEST_alt_def BASE_MANIFEST_def handler_def
      no_fields_def mergeEvents_def merge_event_def obj_spread_def obj_copy_def obj_assign_def
      obj_get_def)

text \<open>
  Claim C2 (events accumulate under merging, also when each plugin's events are folded
  into the accumulated plugin manifest). The second manifest module spreads the events of
  each plugin over the accumulated ones instead of calling \<open>mergeEvents\<close>: with the same
  two plugins, the handler of the first plugin is lost and \<open>ready\<close> is bound to the
  handler of the second plugin alone.
\<close>

theorem readPluginManifest_alt_drops_earlier_handlers:
  "obj_get (m_events (readPluginManifest_alt two_plugins_env two_plugins)) ''ready'' =
     Some [(handler ''/bot/node_modules/second/ready.js'')
             \<lparr>bc_auto := True, bc_plugin := Some (''second'', ''/bot/node_modules/second'')\<rparr>]"
  by (simp add: readPluginManifest_alt_def two_plugins_env_def two_plugins_def example_env_def
      loadManifest_alt_def merge_plugin_alt_def ready_plugin_def BASE_MANIFEST_alt_def
      handler_def no_fields_def obj_spread_def obj_copy_def obj_assign_def obj_get_def)

section \<open>Command entries built by the scan\<close>

lemma list_all_obj_set:
  "list_all (\<lambda>p. P (snd p)) m \<Longrightarrow> P v \<Longrightarrow> list_all (\<lambda>p. P (snd p)) (obj_set m k v)"
  by (induction m) auto

lemma list_all_obj_get:
  "list_all (\<lambda>p. P (snd p)) m \<Longrightarrow> obj_get m k = Some v \<Longrightarrow> P v"
  by (auto simp: obj_get_def list_all_iff dest!: map_of_SomeD)


lemma command_ok_not_both: "command_ok c \<Longrightarrow> \<not> path_with_subcommands c"
  by (induction c) (auto simp: list_all_iff list_ex_iff split: option.splits)




lemma command_level2_absent:
  "obj_get entries (key_at keys 0) = None \<Longrightarrow>
   command_level2 entries keys e =
     Inr (obj_set entries (key_at keys 0) (CommandEntry no_fields (Some [(key_at keys 1, e)])))"
  by (simp add: command_level2_def command_placeholder_def Let_def)

lemma command_level2_present:
  "obj_get entries (key_at keys 0) = Some (CommandEntry b subs) \<Longrightarrow>
   command_level2 entries keys e =
     (if truthy_path b then Inl (ProcessExit (ParentWithSubcommands (the_path b)))
      else case subs of
             None \<Rightarrow> Inl TypeError
           | Some m \<Rightarrow> Inr (obj_set entries (key_at keys 0)
                            (CommandEntry b (Some (obj_set m (key_at keys 1) e)))))"
  by (simp add: command_level2_def Let_def split: option.splits)

lemma command_level3_absent:
  "obj_get entries (key_at keys 0) = None \<Longrightarrow>
   command_level3 entries keys e =
     Inr (obj_set entries (key_at keys 0)
            (CommandEntry no_fields (Some [(key_at keys 1,
               CommandEntry no_fields (Some [(key_at keys 2, e)]))])))"
  by (simp add: command_level3_def command_placeholder_def Let_def obj_get_Nil)

lemma command_level3_present:
  "obj_get entries (key_at keys 0) = Some (CommandEntry b subs) \<Longrightarrow>
   command_level3 entries keys e =
     (if truthy_path b then Inl (ProcessExit (ParentWithSubcommandGroups (the_path b)))
      else case subs of
             None \<Rightarrow> Inl TypeError
           | Some m \<Rightarrow> (case group3 b m keys e of
                          Inl err \<Rightarrow> Inl err
                        | Inr parent \<Rightarrow> Inr (obj_set entries (key_at keys 0) parent)))"
  by (simp add: command_level3_def group3_def command_placeholder_def Let_def
      split: option.splits)

lemma group3_ok:
  assumes "list_all (\<lambda>p. command_ok (snd p)) m" "bc_path b = None" "command_ok e"
    "group3 b m keys e = Inr parent"
  shows "command_ok parent"
proof (cases "obj_get m (key_at keys 1)")
  case None
  with assms show ?thesis
    by (auto simp: group3_def no_fields_def list_all_obj_set)
next
  case (Some q)
  obtain b2 subs2 where q: "q = CommandEntry b2 subs2" by (cases q)
  from list_all_obj_get[OF assms(1) Some] q have okq: "command_ok (CommandEntry b2 subs2)" by simp
  show ?thesis
  proof (cases subs2)
    case None
    with assms Some q show ?thesis by (auto simp: group3_def split: if_splits)
  next
    case inner: (Some m2)
    with okq have "bc_path b2 = None" "list_all (\<lambda>p. command_ok (snd p)) m2" by auto
    with assms Some q inner show ?thesis
      by (auto simp: group3_def list_all_obj_set split: if_splits)
  qed
qed

lemma commands_entry_preserves_ok:
  assumes "commands_ok entries" "command_ok e" "commands_entry entries keys e = Inr es'"
  shows "commands_ok es'"
proof -
  have get: "\<And>k p. obj_get entries k = Some p \<Longrightarrow> command_ok p"
    using assms(1) by (auto simp: commands_ok_def dest: list_all_obj_get)
  have set: "\<And>k v. command_ok v \<Longrightarrow> commands_ok (obj_set entries k v)"
    using assms(1) by (simp add: commands_ok_def list_all_obj_set)
  consider (three) "length keys = 3" | (two) "length keys = 2" | (one) "length keys = 1"
    | (other) "length keys \<noteq> 3" "length keys \<noteq> 2" "length keys \<noteq> 1" by blast
  then show ?thesis
  proof cases
    case three
    with assms(3) have run: "command_level3 entries keys e = Inr es'"
      by (simp add: commands_entry_def)
    show ?thesis
    proof (cases "obj_get entries (key_at keys 0)")
      case None
      from run[unfolded command_level3_absent[OF None]] assms(2) show ?thesis
        by (auto simp: no_fields_def intro!: set)
    next
      case (Some p)
      obtain b subs where p: "p = CommandEntry b subs" by (cases p)
      from get[OF Some] p have okp: "command_ok (CommandEntry b subs)" by simp
      from Some p have found: "obj_get entries (key_at keys 0) = Some (CommandEntry b subs)" by simp
      show ?thesis
      proof (cases subs)
        case None
        with run[unfolded command_level3_present[OF found]] show ?thesis
          by (simp split: if_splits)
      next
        case inner: (Some m)
        with okp have bnone: "bc_path b = None" and allm: "list_all (\<lambda>p. command_ok (snd p)) m"
          by auto
        from run[unfolded command_level3_present[OF found]] inner
        obtain parent where g: "group3 b m keys e = Inr parent"
          and es': "es' = obj_set entries (key_at keys 0) parent"
          by (auto split: if_splits sum.splits)
        from group3_ok[OF allm bnone assms(2) g] es' show ?thesis by (simp add: set)
      qed
    qed
  next
    case two
    with assms(3) have run: "command_level2 entries keys e = Inr es'"
      by (simp add: commands_entry_def)
    show ?thesis
    proof (cases "obj_get entries (key_at keys 0)")
      case None
      from run[unfolded command_level2_absent[OF None]] assms(2) show ?thesis
        by (auto simp: no_fields_def intro!: set)
    next
      case (Some p)
      obtain b subs where p: "p = CommandEntry b subs" by (cases p)
      from get[OF Some] p have okp: "command_ok (CommandEntry b subs)" by simp
      from Some p have found: "obj_get entries (key_at keys 0) = Some (CommandEntry b subs)" by simp
      show ?thesis
      proof (cases subs)
        case None
        with run[unfolded command_level2_present[OF found]] show ?thesis
          by (simp split: if_splits)
      next
        case inner: (Some m)
        with okp have "bc_path b = None" "list_all (\<lambda>p. command_ok (snd p)) m" by auto
        with run[unfolded command_level2_present[OF found]] inner assms(2) show ?thesis
          by (auto simp: list_all_obj_set split: if_splits intro!: set)
      qed
    qed
  next
    case one
    with assms(3) assms(2) show ?thesis by (auto simp: commands_entry_def intro!: set)
  next
    case other
    with assms(3) assms(1) show ?thesis by (auto simp: commands_entry_def)
  qed
qed

lemma fold_err_invariant:
  assumes "fold_err f xs s = Inr s'" "P s"
    and step: "\<And>s x s'. P s \<Longrightarrow> x \<in> set xs \<Longrightarrow> f s x = Inr s' \<Longrightarrow> P s'"
  shows "P s'"
  using assms(1,2) step
proof (induction xs arbitrary: s)
  case Nil
  then show ?case by simp
next
  case (Cons x xs)
  from Cons.prems(1) obtain s1 where first: "f s x = Inr s1" and rest: "fold_err f xs s1 = Inr s'"
    by (cases "f s x") auto
  have "P s1" using Cons.prems(3)[OF Cons.prems(2) _ first] by simp
  moreover have "\<And>s x' s'. P s \<Longrightarrow> x' \<in> set xs \<Longrightarrow> f s x' = Inr s' \<Longrightarrow> P s'"
    using Cons.prems(3) by (meson list.set_intros(2))
  ultimately show ?case using Cons.IH[OF rest] by blast
qed

text \<open>Every state the scan of the commands reaches from no entries is of the two kinds.\<close>

lemma commands_fold_ok:
  assumes "fold_err (\<lambda>entries f. commands_entry entries (fileKeys f)
              (CommandEntry (file_entry env generatedKeys f) None)) files [] = Inr es"
  shows "commands_ok es"
proof (rule fold_err_invariant[OF assms])
  show "commands_ok []" by (simp add: commands_ok_def)
next
  fix s x s'
  assume "commands_ok s"
    "commands_entry s (fileKeys x) (CommandEntry (file_entry env generatedKeys x) None) = Inr s'"
  then show "commands_ok s'"
    using commands_entry_preserves_ok[of s "CommandEntry (file_entry env generatedKeys x) None"
        "fileKeys x" s']
    by (simp add: file_entry_def make_entry_def Let_def)
qed

lemma generateEntries_commands_ok:
  assumes "generateEntries_commands env generatedKeys = Inr entries"
  shows "commands_ok entries"
proof (cases "scan env ''commands''")
  case (Inl e)
  with assms show ?thesis
    by (cases e) (auto simp: generateEntries_commands_def commands_ok_def split: if_splits)
next
  case (Inr files)
  let ?f = "\<lambda>entries f. commands_entry entries (fileKeys f)
              (CommandEntry (file_entry env generatedKeys f) None)"
  show ?thesis
  proof (cases "fold_err ?f files []")
    case (Inl e)
    with assms Inr show ?thesis
      by (cases e) (auto simp: generateEntries_commands_def commands_ok_def split: if_splits)
  next
    case run: (Inr es)
    with assms Inr have "es = entries" by (simp add: generateEntries_commands_def)
    moreover have "commands_ok es"
    proof (rule fold_err_invariant[OF run])
      show "commands_ok []" by (simp add: commands_ok_def)
    next
      fix s x s'
      assume "commands_ok s" "?f s x = Inr s'"
      then show "commands_ok s'"
        using commands_entry_preserves_ok[of s "CommandEntry (file_entry env generatedKeys x) None"
            "fileKeys x" s']
        by (simp add: file_entry_def make_entry_def Let_def)
    qed
    ultimately show ?thesis by simp
  qed
qed

section \<open>Commands nest by depth\<close>



section \<open>Commands of the emitted manifest\<close>

lemma list_all_obj_assign:
  "list_all (\<lambda>p. P (snd p)) t \<Longrightarrow> list_all (\<lambda>p. P (snd p)) s \<Longrightarrow>
   list_all (\<lambda>p. P (snd p)) (obj_assign t s)"
  unfolding obj_assign_def
  by (induction s arbitrary: t) (auto simp: list_all_obj_set)

lemma list_all_obj_copy:
  "list_all (\<lambda>p. P (snd p)) a \<Longrightarrow> list_all (\<lambda>p. P (snd p)) (obj_copy a)"
  by (simp add: obj_copy_def list_all_obj_assign)

lemma list_all_obj_spread:
  "list_all (\<lambda>p. P (snd p)) a \<Longrightarrow> list_all (\<lambda>p. P (snd p)) b \<Longrightarrow>
   list_all (\<lambda>p. P (snd p)) (obj_spread a b)"
  by (simp add: obj_spread_def list_all_obj_assign list_all_obj_copy)

lemma set_insert_by: "set (insert_by cmp x ys) = insert x (set ys)"
  by (induction ys) auto

lemma set_sort_by: "set (sort_by cmp xs) = set xs"
  unfolding sort_by_def by (induction xs) (auto simp: set_insert_by)

lemma list_all_sort_keys:
  "list_all (\<lambda>p. P (snd p)) m \<Longrightarrow> list_all (\<lambda>p. P (snd p)) (sort_keys cmp m)"
  unfolding sort_keys_def
  by (rule list_all_obj_copy) (simp add: list_all_iff set_sort_by)

lemma commands_ok_clean: "commands_ok entries \<Longrightarrow> commands_clean entries"
  by (auto simp: commands_ok_def commands_clean_def list_all_iff dest: command_ok_not_both)

lemma commands_clean_spread:
  "commands_clean a \<Longrightarrow> commands_clean b \<Longrightarrow> commands_clean (obj_spread a b)"
  unfolding commands_clean_def
  by (rule list_all_obj_spread[where P = "\<lambda>c. \<not> path_with_subcommands c"])

lemma commands_clean_sort_keys:
  "commands_clean m \<Longrightarrow> commands_clean (sort_keys cmp m)"
  unfolding commands_clean_def
  by (rule list_all_sort_keys[where P = "\<lambda>c. \<not> path_with_subcommands c"])

lemma merge_plugin_commands:
  "m_commands (merge_plugin pm m) = obj_spread (m_commands pm) (m_commands m)"
  by (simp add: merge_plugin_def)

lemma readPluginManifest_clean:
  assumes "list_all (\<lambda>plugin.
        case env_findPackagePath env (pluginName plugin) of
          None \<Rightarrow> True
        | Some basePath \<Rightarrow> commands_clean (m_commands (env_useManifest env basePath (pluginName plugin))))
      (case plugins of None \<Rightarrow> [] | Some ps \<Rightarrow> ps)"
  shows "commands_clean (m_commands (readPluginManifest env plugins))"
proof -
  let ?step = "\<lambda>plugin pluginsManifest.
             case env_findPackagePath env (pluginName plugin) of
               None \<Rightarrow> pluginsManifest
             | Some packagePath \<Rightarrow>
                 merge_plugin pluginsManifest (env_useManifest env packagePath (pluginName plugin))"
  have "list_all (\<lambda>plugin.
        case env_findPackagePath env (pluginName plugin) of
          None \<Rightarrow> True
        | Some basePath \<Rightarrow> commands_clean (m_commands (env_useManifest env basePath (pluginName plugin)))) ps
      \<Longrightarrow> commands_clean (m_commands acc) \<Longrightarrow> commands_clean (m_commands (fold ?step ps acc))" for ps acc
  proof (induction ps arbitrary: acc)
    case Nil
    then show ?case by simp
  next
    case (Cons plugin ps)
    have "commands_clean (m_commands (?step plugin acc))"
      using Cons.prems
      by (auto simp: merge_plugin_commands commands_clean_spread split: option.splits)
    with Cons show ?case by simp
  qed
  from this[OF assms, of "BASE_MANIFEST (env_mode env)"] show ?thesis
    by (simp add: readPluginManifest_def BASE_MANIFEST_def commands_clean_def)
qed

lemma generateManifest_commands:
  assumes "generateManifest env defaults type = Inr (manifest, written)"
  shows "\<exists>commands. generateEntries_commands env (dg_commands defaults) = Inr commands
     \<and> m_commands manifest = sort_keys (env_localeCompare env)
          (obj_spread (m_commands (if type = TypePlugin then BASE_MANIFEST (env_mode env)
                                   else readPluginManifest env (cfg_plugins (env_config env)))) commands)"
proof -
  from assms obtain api where a: "generateEntries_api env [] = Inr api"
    by (cases "generateEntries_api env []") (auto simp: generateManifest_def Let_def)
  from assms a obtain commands where c: "generateEntries_commands env (dg_commands defaults) = Inr commands"
    by (cases "generateEntries_commands env (dg_commands defaults)") (auto simp: generateManifest_def Let_def)
  from assms a c obtain ctx where x: "generateEntries_context env (dg_context defaults) = Inr ctx"
    by (cases "generateEntries_context env (dg_context defaults)") (auto simp: generateManifest_def Let_def)
  from assms a c x obtain events where e: "generateEntries_events env (dg_events defaults) = Inr events"
    by (cases "generateEntries_events env (dg_events defaults)") (auto simp: generateManifest_def Let_def)
  from assms a c x e obtain mw where m: "generateEntries_middleware env [] = Inr mw"
    by (cases "generateEntries_middleware env []") (auto simp: generateManifest_def Let_def)
  from assms a c x e m show ?thesis
    by (auto simp: generateManifest_def Let_def finish_manifest_def new_manifest_def)
qed

section \<open>A parent file next to subcommands\<close>

text \<open>
  Claim C9. When the entry at \<open>k1\<close> comes from a file (its \<open>__path\<close> is a non-empty
  string), storing a file with the key path \<open>k1, k2\<close> or \<open>k1, k2, k3\<close> logs the error and
  exits; so does storing \<open>k1, k2, k3\<close> when \<open>commands[k1].subcommands[k2]\<close> comes from a
  file. Hence no entry that \<open>generateEntries\<close> returns for the commands has both a
  \<open>__path\<close> and non-empty \<open>subcommands\<close>, and neither has a command of the emitted
  manifest, provided the commands of the installed plugins (manifests emitted by their own
  builds) have none; a plugin build reads no plugins.
\<close>

theorem parent_file_aborts_build:
  "(obj_get entries k1 = Some p \<and> truthy_path (command_base p) \<longrightarrow>
      commands_entry entries [k1, k2] e
        = Inl (ProcessExit (ParentWithSubcommands (the_path (command_base p))))
    \<and> commands_entry entries [k1, k2, k3] e
        = Inl (ProcessExit (ParentWithSubcommandGroups (the_path (command_base p)))))
   \<and> (obj_get entries k1 = Some p \<and> \<not> truthy_path (command_base p) \<and> subcommands p = Some subs
        \<and> obj_get subs k2 = Some q \<and> truthy_path (command_base q) \<longrightarrow>
      commands_entry entries [k1, k2, k3] e
        = Inl (ProcessExit (SubcommandWithSubcommandGroups (the_path (command_base q)))))
   \<and> (generateEntries_commands env generatedKeys = Inr commands \<longrightarrow> commands_clean commands)
   \<and> (generateManifest env defaults type = Inr (manifest, written)
        \<and> (type = TypeRobo \<longrightarrow> plugin_commands_clean env) \<longrightarrow>
      commands_clean (m_commands manifest))"
proof (intro conjI impI)
  assume "obj_get entries k1 = Some p \<and> truthy_path (command_base p)"
  then show "commands_entry entries [k1, k2] e
        = Inl (ProcessExit (ParentWithSubcommands (the_path (command_base p))))"
    by (simp add: commands_entry_def command_level2_def key_at_def)
next
  assume "obj_get entries k1 = Some p \<and> truthy_path (command_base p)"
  then show "commands_entry entries [k1, k2, k3] e
        = Inl (ProcessExit (ParentWithSubcommandGroups (the_path (command_base p))))"
    by (simp add: commands_entry_def command_level3_def key_at_def)
next
  assume "obj_get entries k1 = Some p \<and> \<not> truthy_path (command_base p) \<and> subcommands p = Some subs
        \<and> obj_get subs k2 = Some q \<and> truthy_path (command_base q)"
  then show "commands_entry entries [k1, k2, k3] e
        = Inl (ProcessExit (SubcommandWithSubcommandGroups (the_path (command_base q))))"
    by (simp add: commands_entry_def command_level3_def key_at_def)
next
  assume "generateEntries_commands env generatedKeys = Inr commands"
  then show "commands_clean commands"
    by (rule commands_ok_clean[OF generateEntries_commands_ok])
next
  assume a: "generateManifest env defaults type = Inr (manifest, written)
        \<and> (type = TypeRobo \<longrightarrow> plugin_commands_clean env)"
  then obtain commands where c: "generateEntries_commands env (dg_commands defaults) = Inr commands"
    and m: "m_commands manifest = sort_keys (env_localeCompare env)
          (obj_spread (m_commands (if type = TypePlugin then BASE_MANIFEST (env_mode env)
                                   else readPluginManifest env (cfg_plugins (env_config env)))) commands)"
    using generateManifest_commands by blast
  have local: "commands_clean commands"
    by (rule commands_ok_clean[OF generateEntries_commands_ok[OF c]])
  have plug: "commands_clean (m_commands (if type = TypePlugin then BASE_MANIFEST (env_mode env)
                                   else readPluginManifest env (cfg_plugins (env_config env))))"
  proof (cases type)
    case TypePlugin
    then show ?thesis by (simp add: BASE_MANIFEST_def commands_clean_def)
  next
    case TypeRobo
    with a have "plugin_commands_clean env" by simp
    then have "commands_clean (m_commands (readPluginManifest env (cfg_plugins (env_config env))))"
      unfolding plugin_commands_clean_def by (rule readPluginManifest_clean)
    with TypeRobo show ?thesis by simp
  qed
  show "commands_clean (m_commands manifest)"
    unfolding m by (intro commands_clean_sort_keys commands_clean_spread plug local)
qed

text \<open>
  The claim at work: below the file of \<open>ping\<close> and below the file of \<open>ban user\<close> a deeper
  file ends the build, and the commands of the sample project are clean.
\<close>

theorem parent_file_aborts_build_witness:
  "obj_get ping_only ''ping'' = Some (file_command ''/ping.js'')
   \<and> truthy_path (command_base (file_command ''/ping.js''))
   \<and> commands_entry ping_only [''ping'', ''fast''] (file_command ''/ping/fast.js'')
        = Inl (ProcessExit (ParentWithSubcommands ''/ping.js''))
   \<and> commands_entry ping_only [''ping'', ''very'', ''fast''] (file_command ''/ping/very/fast.js'')
        = Inl (ProcessExit (ParentWithSubcommandGroups ''/ping.js''))
   \<and> obj_get ban_group ''ban'' = Some (CommandEntry no_fields (Some [(''user'', file_command ''/ban/user.js'')]))
   \<and> obj_get [(''user'', file_command ''/ban/user.js'')] ''user'' = Some (file_command ''/ban/user.js'')
   \<and> commands_entry ban_group [''ban'', ''user'', ''now''] (file_command ''/ban/user/now.js'')
        = Inl (ProcessExit (SubcommandWithSubcommandGroups ''/ban/user.js''))
   \<and> (\<exists>commands. generateEntries_commands example_env [] = Inr commands \<and> commands_clean commands)
   \<and> plugin_commands_clean example_env
   \<and> (\<exists>manifest written. generateManifest example_env no_defaults TypeRobo = Inr (manifest, written)
         \<and> commands_clean (m_commands manifest))"
proof -
  have g1: "obj_get ping_only ''ping'' = Some (file_command ''/ping.js'')"
    by (simp add: ping_only_def obj_get_def file_command_def)
  have t1: "truthy_path (command_base (file_command ''/ping.js''))"
    by (simp add: file_command_def truthy_path_def no_fields_def)
  have p1: "the_path (command_base (file_command ''/ping.js'')) = ''/ping.js''"
    by (simp add: file_command_def the_path_def no_fields_def)
  have g2: "obj_get ban_group ''ban'' = Some (CommandEntry no_fields (Some [(''user'', file_command ''/ban/user.js'')]))"
    by (simp add: ban_group_def obj_get_def file_command_def)
  have g3: "obj_get [(''user'', file_command ''/ban/user.js'')] ''user'' = Some (file_command ''/ban/user.js'')"
    by (simp add: obj_get_def)
  have t2: "\<not> truthy_path (command_base (CommandEntry no_fields (Some [(''user'', file_command ''/ban/user.js'')])))"
    by (simp add: truthy_path_def no_fields_def)
  have t3: "truthy_path (command_base (file_command ''/ban/user.js''))"
    by (simp add: file_command_def truthy_path_def no_fields_def)
  have p3: "the_path (command_base (file_command ''/ban/user.js'')) = ''/ban/user.js''"
    by (simp add: file_command_def the_path_def no_fields_def)
  have "\<not> isl (generateEntries_commands example_env [])" by code_simp
  then obtain commands where ge: "generateEntries_commands example_env [] = Inr commands"
    by (cases "generateEntries_commands example_env []") auto
  have "\<not> isl (generateManifest example_env no_defaults TypeRobo)" by code_simp
  then obtain manifest written where gm: "generateManifest example_env no_defaults TypeRobo = Inr (manifest, written)"
    by (cases "generateManifest example_env no_defaults TypeRobo") auto
  have pc: "plugin_commands_clean example_env"
    by (simp add: plugin_commands_clean_def example_env_def example_config_def)
  note a = parent_file_aborts_build[where entries = ping_only and ?k1.0 = "''ping''"
      and p = "file_command ''/ping.js''" and ?k2.0 = "''fast''" and e = "file_command ''/ping/fast.js''"]
  note b = parent_file_aborts_build[where entries = ping_only and ?k1.0 = "''ping''"
      and p = "file_command ''/ping.js''" and ?k2.0 = "''very''" and ?k3.0 = "''fast''"
      and e = "file_command ''/ping/very/fast.js''"]
  note c = parent_file_aborts_build[where entries = ban_group and ?k1.0 = "''ban''"
      and p = "CommandEntry no_fields (Some [(''user'', file_command ''/ban/user.js'')])"
      and ?k2.0 = "''user''" and ?k3.0 = "''now''" and e = "file_command ''/ban/user/now.js''"
      and subs = "[(''user'', file_command ''/ban/user.js'')]" and q = "file_command ''/ban/user.js''"]
  note d = parent_file_aborts_build[where env = example_env and generatedKeys = "[]"
      and commands = commands and defaults = no_defaults and type = TypeRobo
      and manifest = manifest and written = written]
  from a g1 t1 p1 have r1: "commands_entry ping_only [''ping'', ''fast''] (file_command ''/ping/fast.js'')
        = Inl (ProcessExit (ParentWithSubcommands ''/ping.js''))" by simp
  from b g1 t1 p1 have r2: "commands_entry ping_only [''ping'', ''very'', ''fast''] (file_command ''/ping/very/fast.js'')
        = Inl (ProcessExit (ParentWithSubcommandGroups ''/ping.js''))" by simp
  from c g2 g3 t2 t3 p3 have r3: "commands_entry ban_group [''ban'', ''user'', ''now''] (file_command ''/ban/user/now.js'')
        = Inl (ProcessExit (SubcommandWithSubcommandGroups ''/ban/user.js''))" by simp
  from d ge have r4: "commands_clean commands" by blast
  from d gm pc have r5: "commands_clean (m_commands manifest)" by blast
  from g1 t1 r1 r2 g2 g3 r3 ge r4 pc gm r5 show ?thesis by blast
qed

section \<open>API routes nest into subroutes\<close>

text \<open>
  The loop stores the entry at the end of the key path, creating the missing ancestors,
  as long as every existing ancestor below the first has \<open>subroutes\<close>; it throws otherwise.
\<close>

lemma placeholder_open: "ks \<noteq> [] \<Longrightarrow> \<exists>p'. api_descend api_placeholder ks entry = Inr p' \<and> route_at p' ks = Some entry"
proof (induction ks)
  case Nil
  then show ?case by simp
next
  case (Cons k ks)
  show ?case
  proof (cases ks)
    case Nil
    then show ?thesis by (simp add: api_placeholder_def obj_get_Cons)
  next
    case (Cons k' ks')
    with Cons.IH obtain p' where "api_descend api_placeholder ks entry = Inr p'" "route_at p' ks = Some entry"
      by auto
    with Cons show ?thesis
      by (simp add: api_placeholder_def obj_get_Nil obj_get_Cons)
  qed
qed

lemma api_descend_open:
  "ks \<noteq> [] \<Longrightarrow> routes_open parent ks \<Longrightarrow>
   \<exists>p'. api_descend parent ks entry = Inr p' \<and> route_at p' ks = Some entry"
proof (induction parent ks entry rule: api_descend.induct)
  case (1 parent entry)
  then show ?case by simp
next
  case (2 parent lastKey entry)
  then show ?case by (auto simp: obj_get_set)
next
  case (3 parent key v va entry)
  from "3.prems" obtain sr where sr: "subroutes parent = Some sr" by (auto split: option.splits)
  show ?case
  proof (cases "obj_get sr key")
    case None
    from placeholder_open[of "v # va" entry] obtain p' where
      "api_descend api_placeholder (v # va) entry = Inr p'" "route_at p' (v # va) = Some entry" by auto
    with sr None show ?thesis by (simp add: obj_get_set)
  next
    case (Some child)
    with "3.prems" sr have "routes_open child (v # va)" by simp
    with "3.IH"[OF sr, of child] Some obtain p' where
      "api_descend child (v # va) entry = Inr p'" "route_at p' (v # va) = Some entry" by auto
    with sr Some show ?thesis by (simp add: obj_get_set)
  qed
qed

lemma api_descend_closed:
  "ks \<noteq> [] \<Longrightarrow> \<not> routes_open parent ks \<Longrightarrow> api_descend parent ks entry = Inl TypeError"
proof (induction parent ks entry rule: api_descend.induct)
  case (1 parent entry)
  then show ?case by simp
next
  case (2 parent lastKey entry)
  then show ?case by auto
next
  case (3 parent key v va entry)
  show ?case
  proof (cases "subroutes parent")
    case None
    then show ?thesis by simp
  next
    case (Some sr)
    with "3.prems" obtain child where c: "obj_get sr key = Some child" "\<not> routes_open child (v # va)"
      by (auto split: option.splits)
    with "3.IH"[OF Some, of child] Some show ?thesis by simp
  qed
qed

lemma api_entry_single: "api_entry entries [k] entry = Inr (obj_set entries k entry)"
  by (simp add: api_entry_def key_at_def)

text \<open>
  Claim C4 (a file with the key path \<open>k1, ..., kn\<close> is placed at
  \<open>entries[k1].subroutes[k2]...subroutes[kn]\<close>, for every scanned file). The first
  parent is given \<open>subroutes\<close> when it has none, the ancestors below it are not: with the
  routes \<open>a/b.js\<close> and \<open>a/b/c.js\<close> the scan visits \<open>a/b.js\<close> first, its entry has no
  \<open>subroutes\<close>, and storing \<open>a/b/c.js\<close> below it throws. No entries and no manifest are
  produced.
\<close>

theorem api_route_below_route_file_throws:
  "scan nested_api_env ''api'' =
     Inr [\<lparr>fileKeys = [''a'', ''b''], fullPath = ''/bot/.robo/build/api/a/b.js'', moduleKeys = []\<rparr>,
          \<lparr>fileKeys = [''a'', ''b'', ''c''], fullPath = ''/bot/.robo/build/api/a/b/c.js'',
            moduleKeys = []\<rparr>]
   \<and> generateEntries_api nested_api_env [] = Inl TypeError
   \<and> generateManifest nested_api_env no_defaults TypeRobo = Inl TypeError"
  by code_simp

section \<open>Plugin options in the manifest\<close>

lemma redact_options_keys:
  "redact_options v = fold (\<lambda>key acc. obj_set acc key (String ''[REDACTED]'')) (own_keys v) []"
  by (simp add: redact_options_def)

lemma fold_redact_get:
  "obj_get (fold (\<lambda>key acc. obj_set acc key (String ''[REDACTED]'')) ks acc) k =
     (if k \<in> set ks then Some (String ''[REDACTED]'') else obj_get acc k)"
  by (induction ks arbitrary: acc) (auto simp: obj_get_set)

lemma redact_options_get:
  "obj_get (redact_options v) k =
     (if k \<in> set (own_keys v) then Some (String ''[REDACTED]'') else None)"
  by (simp add: redact_options_def fold_redact_get obj_get_Nil)

lemma fold_redact_keys:
  "distinct (map fst acc @ ks) \<Longrightarrow>
   map fst (fold (\<lambda>key acc. obj_set acc key (String ''[REDACTED]'')) ks acc) = map fst acc @ ks"
proof (induction ks arbitrary: acc)
  case Nil
  then show ?case by simp
next
  case (Cons key ks)
  from Cons.prems have fresh: "key \<notin> set (map fst acc)" by auto
  then have keys: "map fst (obj_set acc key (String ''[REDACTED]'')) = map fst acc @ [key]"
    by (simp add: keys_obj_set)
  with Cons.prems have "distinct (map fst (obj_set acc key (String ''[REDACTED]'')) @ ks)" by auto
  from Cons.IH[OF this] keys show ?case by simp
qed

lemma redact_options_key_order:
  "distinct (own_keys v) \<Longrightarrow> map fst (redact_options v) = own_keys v"
  using fold_redact_keys[of "[]" "own_keys v"] by (simp add: redact_options_def)

lemma redact_options_values:
  "(k, x) \<in> set (redact_options v) \<Longrightarrow> x = String ''[REDACTED]''"
proof -
  have "(\<forall>(k, x) \<in> set acc. x = String ''[REDACTED]'') \<Longrightarrow>
        (\<forall>(k, x) \<in> set (fold (\<lambda>key acc. obj_set acc key (String ''[REDACTED]'')) ks acc). x = String ''[REDACTED]'')" for ks acc
  proof (induction ks arbitrary: acc)
    case Nil
    then show ?case by simp
  next
    case (Cons key ks)
    have "\<forall>(k, x) \<in> set (obj_set acc key (String ''[REDACTED]'')). x = String ''[REDACTED]''"
      using Cons.prems by (induction acc) (auto split: if_splits)
    from Cons.IH[OF this] show ?case by simp
  qed
  from this[of "[]" "own_keys v"] show "(k, x) \<in> set (redact_options v) \<Longrightarrow> x = String ''[REDACTED]''"
    by (auto simp: redact_options_def)
qed

lemma redact_plugin_name: "pluginName (redact_plugin p) = pluginName p"
  by (cases p) (auto simp: Let_def)

lemma redact_plugin_independent:
  "only_option_values_differ p p' \<Longrightarrow> redact_plugin p' = redact_plugin p"
  by (induction p p' rule: only_option_values_differ.induct) (auto simp: redact_options_def)

lemma redact_plugins_independent:
  "list_all2 only_option_values_differ ps ps' \<Longrightarrow> map redact_plugin ps' = map redact_plugin ps"
  by (induction ps ps' rule: list_all2_induct) (auto simp: redact_plugin_independent)

lemma redactPluginOptions_independent:
  "configs_differ_in_option_values c c' \<Longrightarrow> redactPluginOptions c' = redactPluginOptions c"
  by (auto simp: configs_differ_in_option_values_def redactPluginOptions_def redact_plugins_independent
      split: option.splits)


lemma only_option_values_differ_name:
  "only_option_values_differ p p' \<Longrightarrow> pluginName p' = pluginName p"
  by (induction p p' rule: only_option_values_differ.induct) auto

lemma plugin_names_independent:
  "list_all2 only_option_values_differ ps ps' \<Longrightarrow> map pluginName ps' = map pluginName ps"
  by (induction ps ps' rule: list_all2_induct) (auto simp: only_option_values_differ_name)

lemma readPluginManifest_names:
  "readPluginManifest env plugins =
     fold (\<lambda>name pluginsManifest.
             case env_findPackagePath env name of
               None \<Rightarrow> pluginsManifest
             | Some packagePath \<Rightarrow> merge_plugin pluginsManifest (env_useManifest env packagePath name))
          (map pluginName (case plugins of None \<Rightarrow> [] | Some ps \<Rightarrow> ps))
          (BASE_MANIFEST (env_mode env))"
  by (simp add: readPluginManifest_def fold_map comp_def)

lemma generateManifest_independent:
  assumes "configs_differ_in_option_values (env_config env) config'"
  shows "generateManifest (env\<lparr>env_config := config'\<rparr>) defaults type = generateManifest env defaults type"
proof -
  have red: "redactPluginOptions config' = redactPluginOptions (env_config env)"
    by (rule redactPluginOptions_independent[OF assms])
  have names: "map pluginName (case cfg_plugins config' of None \<Rightarrow> [] | Some ps \<Rightarrow> ps)
             = map pluginName (case cfg_plugins (env_config env) of None \<Rightarrow> [] | Some ps \<Rightarrow> ps)"
    using assms
    by (auto simp: configs_differ_in_option_values_def plugin_names_independent split: option.splits)
  have rest: "cfg_invite config' = cfg_invite (env_config env)"
      "cfg_intents config' = cfg_intents (env_config env)"
      "cfg_seed config' = cfg_seed (env_config env)"
      "cfg_buildDirectory config' = cfg_buildDirectory (env_config env)"
    using assms by (auto simp: configs_differ_in_option_values_def split: option.splits)
  have plug: "readPluginManifest (env\<lparr>env_config := config'\<rparr>) (cfg_plugins config')
            = readPluginManifest env (cfg_plugins (env_config env))"
    by (simp add: readPluginManifest_names names cong: option.case_cong)
  show ?thesis
    by (simp add: generateManifest_def plug red rest generateEntries_api_def generateEntries_commands_def
        generateEntries_context_def generateEntries_events_def generateEntries_middleware_def
        scan_def file_entry_def new_manifest_def finish_manifest_def generatePermissions_def
        generateScopes_def Let_def cong: if_cong)
qed

text \<open>
  Claim C10. For a configuration with plugins, the redacted configuration keeps the
  plugins, their names and their order; a plugin given as a name with an options object
  becomes the name with an object that binds exactly the keys of the options, each to the
  string \<open>[REDACTED]\<close>, in the same order. Two configurations that differ only in the
  values of such options have the same redacted configuration, and the same manifest.
\<close>

theorem plugin_option_values_redacted:
  assumes "cfg_plugins config = Some plugins"
  shows "\<exists>redacted. cfg_plugins (redactPluginOptions config) = Some redacted
     \<and> map pluginName redacted = map pluginName plugins
     \<and> (i < length plugins \<and> plugins ! i = PluginArray n (Object props # rest) \<longrightarrow>
          (\<exists>r. redacted ! i = PluginArray n [Object r]
             \<and> (\<forall>k. obj_get r k =
                   (if k \<in> set (map fst props) then Some (String ''[REDACTED]'') else None))
             \<and> (wf_obj props \<longrightarrow> map fst r = map fst props)))
     \<and> (configs_differ_in_option_values config config' \<longrightarrow>
          redactPluginOptions config' = redactPluginOptions config)
     \<and> (env_config env = config \<and> configs_differ_in_option_values config config' \<longrightarrow>
          generateManifest (env\<lparr>env_config := config'\<rparr>) defaults type
            = generateManifest env defaults type)"
proof -
  have a: "cfg_plugins (redactPluginOptions config) = Some (map redact_plugin plugins)"
    using assms by (simp add: redactPluginOptions_def)
  have b: "map pluginName (map redact_plugin plugins) = map pluginName plugins"
    by (simp add: redact_plugin_name comp_def)
  have c: "i < length plugins \<and> plugins ! i = PluginArray n (Object props # rest) \<longrightarrow>
          (\<exists>r. map redact_plugin plugins ! i = PluginArray n [Object r]
             \<and> (\<forall>k. obj_get r k =
                   (if k \<in> set (map fst props) then Some (String ''[REDACTED]'') else None))
             \<and> (wf_obj props \<longrightarrow> map fst r = map fst props))"
  proof
    assume h: "i < length plugins \<and> plugins ! i = PluginArray n (Object props # rest)"
    then have "map redact_plugin plugins ! i = PluginArray n [Object (redact_options (Object props))]"
      by simp
    moreover have "\<forall>k. obj_get (redact_options (Object props)) k =
                   (if k \<in> set (map fst props) then Some (String ''[REDACTED]'') else None)"
      by (simp add: redact_options_get)
    moreover have "wf_obj props \<longrightarrow> map fst (redact_options (Object props)) = map fst props"
      using redact_options_key_order[of "Object props"] by (simp add: wf_obj_def)
    ultimately show "\<exists>r. map redact_plugin plugins ! i = PluginArray n [Object r]
             \<and> (\<forall>k. obj_get r k =
                   (if k \<in> set (map fst props) then Some (String ''[REDACTED]'') else None))
             \<and> (wf_obj props \<longrightarrow> map fst r = map fst props)" by blast
  qed
  have d: "configs_differ_in_option_values config config' \<longrightarrow>
          redactPluginOptions config' = redactPluginOptions config"
    by (simp add: redactPluginOptions_independent)
  have e: "env_config env = config \<and> configs_differ_in_option_values config config' \<longrightarrow>
          generateManifest (env\<lparr>env_config := config'\<rparr>) defaults type
            = generateManifest env defaults type"
    using generateManifest_independent by blast
  from a b c d e show ?thesis by blast
qed

text \<open>The claim at work on the sample configuration and on one with another token.\<close>

theorem plugin_option_values_redacted_witness:
  "cfg_plugins example_config =
     Some [PluginName ''@robojs/ai'',
           PluginArray ''@robojs/server'' [Object [(''token'', String ''hunter2'')]]]
   \<and> cfg_plugins (redactPluginOptions example_config) =
       Some [PluginName ''@robojs/ai'',
             PluginArray ''@robojs/server'' [Object [(''token'', String ''[REDACTED]'')]]]
   \<and> configs_differ_in_option_values example_config other_token_config
   \<and> redactPluginOptions other_token_config = redactPluginOptions example_config
   \<and> env_config example_env = example_config
   \<and> generateManifest (example_env\<lparr>env_config := other_token_config\<rparr>) no_defaults TypeRobo
       = generateManifest example_env no_defaults TypeRobo"
proof -
  have plugins: "cfg_plugins example_config =
     Some [PluginName ''@robojs/ai'',
           PluginArray ''@robojs/server'' [Object [(''token'', String ''hunter2'')]]]"
    by (simp add: example_config_def)
  have differ: "configs_differ_in_option_values example_config other_token_config"
    by (simp add: configs_differ_in_option_values_def example_config_def other_token_config_def)
  have config: "env_config example_env = example_config"
    by (simp add: example_env_def)
  have redacted: "cfg_plugins (redactPluginOptions example_config) =
       Some [PluginName ''@robojs/ai'',
             PluginArray ''@robojs/server'' [Object [(''token'', String ''[REDACTED]'')]]]"
    by (simp add: redactPluginOptions_def example_config_def redact_options_def)
  from plugin_option_values_redacted[OF plugins, where config' = other_token_config
      and env = example_env and defaults = no_defaults and type = TypeRobo] differ config
  have "redactPluginOptions other_token_config = redactPluginOptions example_config"
    and "generateManifest (example_env\<lparr>env_config := other_token_config\<rparr>) no_defaults TypeRobo
       = generateManifest example_env no_defaults TypeRobo"
    by blast+
  with plugins redacted differ config show ?thesis by blast
qed

section \<open>What a successful run yields\<close>

lemma generateManifest_Inr:
  assumes "generateManifest env defaults type = Inr (manifest, written)"
  shows "\<exists>api commands ctx events mw.
       generateEntries_api env [] = Inr api
     \<and> generateEntries_commands env (dg_commands defaults) = Inr commands
     \<and> generateEntries_context env (dg_context defaults) = Inr ctx
     \<and> generateEntries_events env (dg_events defaults) = Inr events
     \<and> generateEntries_middleware env [] = Inr mw
     \<and> manifest = finish_manifest env
          (new_manifest env type (plugins_manifest env type) api commands ctx events (map snd mw))
     \<and> written = [Mkdir ''.robo'', WriteFile ''.robo/manifest.json'' manifest]"
proof -
  from assms obtain api where a: "generateEntries_api env [] = Inr api"
    by (cases "generateEntries_api env []") (auto simp: generateManifest_def Let_def)
  from assms a obtain commands where c: "generateEntries_commands env (dg_commands defaults) = Inr commands"
    by (cases "generateEntries_commands env (dg_commands defaults)") (auto simp: generateManifest_def Let_def)
  from assms a c obtain ctx where x: "generateEntries_context env (dg_context defaults) = Inr ctx"
    by (cases "generateEntries_context env (dg_context defaults)") (auto simp: generateManifest_def Let_def)
  from assms a c x obtain events where e: "generateEntries_events env (dg_events defaults) = Inr events"
    by (cases "generateEntries_events env (dg_events defaults)") (auto simp: generateManifest_def Let_def)
  from assms a c x e obtain mw where m: "generateEntries_middleware env [] = Inr mw"
    by (cases "generateEntries_middleware env []") (auto simp: generateManifest_def Let_def)
  from assms a c x e m show ?thesis
    by (auto simp: generateManifest_def Let_def plugins_manifest_def)
qed

lemma generateManifest_intro:
  assumes "generateEntries_api env [] = Inr api"
     "generateEntries_commands env (dg_commands defaults) = Inr commands"
     "generateEntries_context env (dg_context defaults) = Inr ctx"
     "generateEntries_events env (dg_events defaults) = Inr events"
     "generateEntries_middleware env [] = Inr mw"
  shows "generateManifest env defaults type =
     (let manifest = finish_manifest env
          (new_manifest env type (plugins_manifest env type) api commands ctx events (map snd mw))
      in Inr (manifest, [Mkdir ''.robo'', WriteFile ''.robo/manifest.json'' manifest]))"
  using assms by (simp add: generateManifest_def Let_def plugins_manifest_def)

section \<open>The manifest file\<close>

text \<open>
  Claim C8. A successful run of \<open>generateManifest\<close> creates the directory \<open>.robo\<close> and
  writes the JSON of the manifest it returns to \<open>.robo/manifest.json\<close>, both relative to
  the working directory, and nothing else.
\<close>

theorem manifest_file_is_the_only_write:
  assumes "generateManifest env defaults type = Inr (manifest, written)"
  shows "written = [Mkdir ''.robo'', WriteFile ''.robo/manifest.json'' manifest]"
  using generateManifest_Inr[OF assms] by blast

text \<open>The sample project builds, and writes exactly that.\<close>

theorem manifest_file_is_the_only_write_witness:
  "\<exists>manifest written. generateManifest example_env no_defaults TypeRobo = Inr (manifest, written)
     \<and> written = [Mkdir ''.robo'', WriteFile ''.robo/manifest.json'' manifest]"
proof -
  have "\<not> isl (generateManifest example_env no_defaults TypeRobo)" by code_simp
  then obtain manifest written where
    run: "generateManifest example_env no_defaults TypeRobo = Inr (manifest, written)"
    by (cases "generateManifest example_env no_defaults TypeRobo") auto
  from manifest_file_is_the_only_write[OF run] run show ?thesis by blast
qed

section \<open>Registering the commands\<close>

text \<open>
  Claim C6. When the build is not refused for watch mode and the manifest is generated,
  \<open>buildAction\<close> completes, and it calls \<open>registerCommands\<close> if and only if \<open>force\<close> is
  set or the comparison of the previous commands with the new ones reports an added, a
  removed or a changed command; the call passes the new commands and the three
  differences.
\<close>

theorem registration_decided_by_force_or_difference:
  assumes "\<not> opt_watch options"
    and "generateManifest env generatedFiles TypeRobo = Inr (manifest, written)"
  shows "\<exists>call. buildAction env options generatedFiles = Inr (manifest, written, call)
     \<and> (call \<noteq> None \<longleftrightarrow>
          opt_force options
          \<or> env_findCommandDifferences env (m_commands (env_oldManifest env)) (m_commands manifest) Added \<noteq> []
          \<or> env_findCommandDifferences env (m_commands (env_oldManifest env)) (m_commands manifest) Removed \<noteq> []
          \<or> env_findCommandDifferences env (m_commands (env_oldManifest env)) (m_commands manifest) Changed \<noteq> [])
     \<and> (call \<noteq> None \<longrightarrow>
          call = Some (RegisterCommands (opt_dev options) (m_commands manifest)
            (env_findCommandDifferences env (m_commands (env_oldManifest env)) (m_commands manifest) Changed)
            (env_findCommandDifferences env (m_commands (env_oldManifest env)) (m_commands manifest) Added)
            (env_findCommandDifferences env (m_commands (env_oldManifest env)) (m_commands manifest) Removed)))"
  using assms by (simp add: buildAction_def Let_def)

text \<open>
  The sample project: without differences the commands are registered only when forced;
  with a comparison that reports the new commands as added they are registered.
\<close>

theorem registration_decided_by_force_or_difference_witness:
  "\<not> opt_watch plain_options \<and> \<not> opt_watch (plain_options\<lparr>opt_force := True\<rparr>)
   \<and> (\<exists>manifest written. generateManifest example_env no_defaults TypeRobo = Inr (manifest, written)
        \<and> buildAction example_env plain_options no_defaults = Inr (manifest, written, None)
        \<and> (\<exists>call. buildAction example_env (plain_options\<lparr>opt_force := True\<rparr>) no_defaults
               = Inr (manifest, written, Some call)))
   \<and> (\<exists>manifest written call. generateManifest new_command_env no_defaults TypeRobo = Inr (manifest, written)
        \<and> buildAction new_command_env plain_options no_defaults = Inr (manifest, written, Some call))"
proof -
  have w1: "\<not> opt_watch plain_options" and w2: "\<not> opt_watch (plain_options\<lparr>opt_force := True\<rparr>)"
    by (simp_all add: plain_options_def)
  have "\<not> isl (generateManifest example_env no_defaults TypeRobo)" by code_simp
  then obtain manifest written where
    run: "generateManifest example_env no_defaults TypeRobo = Inr (manifest, written)"
    by (cases "generateManifest example_env no_defaults TypeRobo") auto
  have nodiff: "env_findCommandDifferences example_env a b k = []" for a b k
    by (simp add: example_env_def)
  from registration_decided_by_force_or_difference[OF w1 run]
  have a: "buildAction example_env plain_options no_defaults = Inr (manifest, written, None)"
    by (auto simp: nodiff plain_options_def)
  from registration_decided_by_force_or_difference[OF w2 run]
  have b: "\<exists>call. buildAction example_env (plain_options\<lparr>opt_force := True\<rparr>) no_defaults
               = Inr (manifest, written, Some call)"
    by (auto simp: nodiff plain_options_def)
  have "\<not> isl (generateManifest new_command_env no_defaults TypeRobo)" by code_simp
  then obtain manifest' written' where
    run': "generateManifest new_command_env no_defaults TypeRobo = Inr (manifest', written')"
    by (cases "generateManifest new_command_env no_defaults TypeRobo") auto
  have added: "env_findCommandDifferences new_command_env (m_commands (env_oldManifest new_command_env))
      (m_commands (fst (projr (generateManifest new_command_env no_defaults TypeRobo)))) Added \<noteq> []"
    by code_simp
  from registration_decided_by_force_or_difference[OF w1 run'] added run'
  have c: "\<exists>call. buildAction new_command_env plain_options no_defaults = Inr (manifest', written', Some call)"
    by auto
  from w1 w2 run a b run' c show ?thesis by blast
qed

section \<open>Determinism of the manifest\<close>






section \<open>Merging the plugins' manifests\<close>

lemma keys_insert_by:
  "distinct (map fst (insert_by cmp x ys)) = (fst x \<notin> fst ` set ys \<and> distinct (map fst ys))"
  by (induction ys) (auto simp: set_insert_by)

lemma wf_sort_by: "wf_obj m \<Longrightarrow> wf_obj (sort_by (\<lambda>p q. cmp (fst p) (fst q)) m)"
  unfolding wf_obj_def sort_by_def
  by (induction m) (auto simp: keys_insert_by set_sort_by[unfolded sort_by_def])

lemma obj_get_sort_keys: "wf_obj m \<Longrightarrow> obj_get (sort_keys cmp m) k = obj_get m k"
proof -
  assume wf: "wf_obj m"
  let ?s = "sort_by (\<lambda>p q. cmp (fst p) (fst q)) m"
  have wfs: "wf_obj ?s" by (rule wf_sort_by[OF wf])
  have "map_of ?s = map_of m"
    using wf wfs by (simp add: map_of_inject_set wf_obj_def set_sort_by)
  then show ?thesis
    by (simp add: sort_keys_def obj_copy_wf[OF wfs] obj_get_def)
qed

lemma fold_merge_plugin_lists:
  "m_middleware (fold (\<lambda>m pm. merge_plugin pm m) ms acc) = m_middleware acc @ concat (map m_middleware ms)"
  "permission_strings (m_permissions (fold (\<lambda>m pm. merge_plugin pm m) ms acc)) =
     permission_strings (m_permissions acc) @ concat (map (\<lambda>m. permission_strings (m_permissions m)) ms)"
  "m_scopes (fold (\<lambda>m pm. merge_plugin pm m) ms acc) = m_scopes acc @ concat (map m_scopes ms)"
  by (induction ms arbitrary: acc; simp add: merge_plugin_def)+

lemma latest_fold:
  "fold (\<lambda>m found. case obj_get m k of None \<Rightarrow> found | Some v \<Rightarrow> Some v) ms init =
     (case latest ms k of None \<Rightarrow> init | Some v \<Rightarrow> Some v)"
proof (induction ms arbitrary: init)
  case Nil
  then show ?case by (simp add: latest_def)
next
  case (Cons m ms)
  show ?case
    by (simp add: latest_def Cons.IH[of "case obj_get m k of None \<Rightarrow> init | Some v \<Rightarrow> Some v"]
        Cons.IH[of "case obj_get m k of None \<Rightarrow> None | Some v \<Rightarrow> Some v"] split: option.splits)
qed

lemma latest_Nil: "latest [] k = None"
  by (simp add: latest_def)

lemma latest_Cons:
  "latest (m # ms) k = (case latest ms k of None \<Rightarrow> obj_get m k | Some v \<Rightarrow> Some v)"
proof -
  have "latest (m # ms) k =
      fold (\<lambda>m found. case obj_get m k of None \<Rightarrow> found | Some v \<Rightarrow> Some v) ms
        (case obj_get m k of None \<Rightarrow> None | Some v \<Rightarrow> Some v)"
    by (simp add: latest_def)
  also have "\<dots> = (case latest ms k of
                      None \<Rightarrow> (case obj_get m k of None \<Rightarrow> None | Some v \<Rightarrow> Some v)
                    | Some v \<Rightarrow> Some v)"
    by (rule latest_fold)
  finally show ?thesis by (simp split: option.splits)
qed

lemma wf_merge_plugin: "wf_manifest (merge_plugin pm m)"
  by (simp add: wf_manifest_def merge_plugin_def wf_obj_spread)

lemma fold_merge_plugin_wf:
  "wf_manifest acc \<Longrightarrow> wf_manifest (fold (\<lambda>m pm. merge_plugin pm m) ms acc)"
  by (induction ms arbitrary: acc) (auto simp: wf_merge_plugin)

lemma fold_spread_get:
  assumes spread: "\<And>pm m. f (merge_plugin pm m) = obj_spread (f pm) (f m)"
    and "list_all (\<lambda>m. wf_obj (f m)) ms" and "wf_obj (f acc)"
  shows "obj_get (f (fold (\<lambda>m pm. merge_plugin pm m) ms acc)) k =
           (case latest (map f ms) k of None \<Rightarrow> obj_get (f acc) k | Some v \<Rightarrow> Some v)"
  using assms(2,3)
proof (induction ms arbitrary: acc)
  case Nil
  then show ?case by (simp add: latest_Nil)
next
  case (Cons m ms)
  have wfm: "wf_obj (f m)" and wfms: "list_all (\<lambda>m. wf_obj (f m)) ms"
    using Cons.prems(1) by auto
  have wfstep: "wf_obj (f (merge_plugin acc m))" by (simp add: spread wf_obj_spread)
  have step: "obj_get (f (merge_plugin acc m)) k =
      (case obj_get (f m) k of None \<Rightarrow> obj_get (f acc) k | Some v \<Rightarrow> Some v)"
    using wfm Cons.prems(2) by (simp add: spread obj_get_spread)
  show ?case
    by (simp add: Cons.IH[OF wfms wfstep] step latest_Cons split: option.splits)
qed

lemma fold_merge_plugin_get:
  assumes "list_all wf_manifest ms" "wf_manifest acc"
  shows "obj_get (m_api (fold (\<lambda>m pm. merge_plugin pm m) ms acc)) k =
           (case latest (map m_api ms) k of None \<Rightarrow> obj_get (m_api acc) k | Some v \<Rightarrow> Some v)"
    and "obj_get (m_commands (fold (\<lambda>m pm. merge_plugin pm m) ms acc)) k =
           (case latest (map m_commands ms) k of None \<Rightarrow> obj_get (m_commands acc) k | Some v \<Rightarrow> Some v)"
    and "obj_get (m_context_message (fold (\<lambda>m pm. merge_plugin pm m) ms acc)) k =
           (case latest (map m_context_message ms) k of
              None \<Rightarrow> obj_get (m_context_message acc) k | Some v \<Rightarrow> Some v)"
    and "obj_get (m_context_user (fold (\<lambda>m pm. merge_plugin pm m) ms acc)) k =
           (case latest (map m_context_user ms) k of
              None \<Rightarrow> obj_get (m_context_user acc) k | Some v \<Rightarrow> Some v)"
proof -
  from assms have wf: "list_all (\<lambda>m. wf_obj (m_api m)) ms" "list_all (\<lambda>m. wf_obj (m_commands m)) ms"
      "list_all (\<lambda>m. wf_obj (m_context_message m)) ms" "list_all (\<lambda>m. wf_obj (m_context_user m)) ms"
      "wf_obj (m_api acc)" "wf_obj (m_commands acc)" "wf_obj (m_context_message acc)"
      "wf_obj (m_context_user acc)"
    by (auto simp: wf_manifest_def list_all_iff)
  show "obj_get (m_api (fold (\<lambda>m pm. merge_plugin pm m) ms acc)) k =
           (case latest (map m_api ms) k of None \<Rightarrow> obj_get (m_api acc) k | Some v \<Rightarrow> Some v)"
    by (rule fold_spread_get[OF _ wf(1) wf(5)]) (simp add: merge_plugin_def)
  show "obj_get (m_commands (fold (\<lambda>m pm. merge_plugin pm m) ms acc)) k =
           (case latest (map m_commands ms) k of None \<Rightarrow> obj_get (m_commands acc) k | Some v \<Rightarrow> Some v)"
    by (rule fold_spread_get[OF _ wf(2) wf(6)]) (simp add: merge_plugin_def)
  show "obj_get (m_context_message (fold (\<lambda>m pm. merge_plugin pm m) ms acc)) k =
           (case latest (map m_context_message ms) k of
              None \<Rightarrow> obj_get (m_context_message acc) k | Some v \<Rightarrow> Some v)"
    by (rule fold_spread_get[OF _ wf(3) wf(7)]) (simp add: merge_plugin_def)
  show "obj_get (m_context_user (fold (\<lambda>m pm. merge_plugin pm m) ms acc)) k =
           (case latest (map m_context_user ms) k of
              None \<Rightarrow> obj_get (m_context_user acc) k | Some v \<Rightarrow> Some v)"
    by (rule fold_spread_get[OF _ wf(4) wf(8)]) (simp add: merge_plugin_def)
qed

lemma plugins_manifest_fold:
  "plugins_manifest env type =
     fold (\<lambda>m pm. merge_plugin pm m) (installed_manifests env type) (BASE_MANIFEST (env_mode env))"
proof -
  have "fold (\<lambda>plugin pluginsManifest.
             case env_findPackagePath env (pluginName plugin) of
               None \<Rightarrow> pluginsManifest
             | Some packagePath \<Rightarrow>
                 merge_plugin pluginsManifest (env_useManifest env packagePath (pluginName plugin))) ps acc
      = fold (\<lambda>m pm. merge_plugin pm m) (concat (map (\<lambda>plugin.
              case env_findPackagePath env (pluginName plugin) of
                None \<Rightarrow> []
              | Some packagePath \<Rightarrow> [env_useManifest env packagePath (pluginName plugin)]) ps)) acc" for ps acc
    by (induction ps arbitrary: acc) (auto split: option.splits)
  then show ?thesis
    by (simp add: plugins_manifest_def readPluginManifest_def installed_manifests_def)
qed


lemma commands_entry_shape:
  "commands_entry entries keys e = Inr es' \<Longrightarrow>
   es' = entries \<or> (\<exists>v. es' = obj_set entries (key_at keys 0) v)"
proof (cases "obj_get entries (key_at keys 0)")
  case None
  assume "commands_entry entries keys e = Inr es'"
  with None show ?thesis
    by (auto simp: commands_entry_def command_level2_absent command_level3_absent split: if_splits)
next
  case (Some p)
  assume run: "commands_entry entries keys e = Inr es'"
  obtain b subs where "p = CommandEntry b subs" by (cases p)
  with Some have found: "obj_get entries (key_at keys 0) = Some (CommandEntry b subs)" by simp
  from run show ?thesis
    by (auto simp: commands_entry_def command_level2_present[OF found] command_level3_present[OF found]
        split: if_splits option.splits sum.splits)
qed

lemma generateEntries_commands_wf:
  assumes "generateEntries_commands env generatedKeys = Inr entries"
  shows "wf_obj entries"
proof (cases "scan env ''commands''")
  case (Inl e)
  with assms show ?thesis
    by (cases e) (auto simp: generateEntries_commands_def wf_obj_def split: if_splits)
next
  case (Inr files)
  let ?f = "\<lambda>entries f. commands_entry entries (fileKeys f)
              (CommandEntry (file_entry env generatedKeys f) None)"
  show ?thesis
  proof (cases "fold_err ?f files []")
    case (Inl e)
    with assms Inr show ?thesis
      by (cases e) (auto simp: generateEntries_commands_def wf_obj_def split: if_splits)
  next
    case run: (Inr es)
    with assms Inr have "es = entries" by (simp add: generateEntries_commands_def)
    moreover have "wf_obj es"
    proof (rule fold_err_invariant[OF run])
      show "wf_obj []" by (simp add: wf_obj_def)
    next
      fix s x s'
      assume "wf_obj s" "?f s x = Inr s'"
      then show "wf_obj s'"
        using commands_entry_shape[of s "fileKeys x"
            "CommandEntry (file_entry env generatedKeys x) None" s']
        by (auto simp: wf_obj_set)
    qed
    ultimately show ?thesis by simp
  qed
qed

lemma api_entry_shape:
  "api_entry entries keys e = Inr es' \<Longrightarrow> \<exists>v. es' = obj_set entries (key_at keys 0) v"
  by (auto simp: api_entry_def Let_def split: if_splits sum.splits)

lemma generateEntries_api_wf:
  assumes "generateEntries_api env generatedKeys = Inr entries"
  shows "wf_obj entries"
proof (cases "scan env ''api''")
  case (Inl e)
  with assms show ?thesis
    by (cases e) (auto simp: generateEntries_api_def wf_obj_def split: if_splits)
next
  case (Inr files)
  let ?f = "\<lambda>entries f. api_entry entries (fileKeys f) (ApiEntry (file_entry env generatedKeys f) None)"
  show ?thesis
  proof (cases "fold_err ?f files []")
    case (Inl e)
    with assms Inr show ?thesis
      by (cases e) (auto simp: generateEntries_api_def wf_obj_def split: if_splits)
  next
    case run: (Inr es)
    with assms Inr have "es = entries" by (simp add: generateEntries_api_def)
    moreover have "wf_obj es"
    proof (rule fold_err_invariant[OF run])
      show "wf_obj []" by (simp add: wf_obj_def)
    next
      fix s x s'
      assume "wf_obj s" "?f s x = Inr s'"
      then show "wf_obj s'"
        using api_entry_shape[of s "fileKeys x" "ApiEntry (file_entry env generatedKeys x) None" s']
        by (auto simp: wf_obj_set)
    qed
    ultimately show ?thesis by simp
  qed
qed

lemma context_entry_wf:
  "list_all (\<lambda>p. wf_obj (snd p)) entries \<Longrightarrow>
   list_all (\<lambda>p. wf_obj (snd p)) (context_entry entries keys e)"
proof -
  assume inv: "list_all (\<lambda>p. wf_obj (snd p)) entries"
  have inner: "wf_obj (case obj_get entries k of None \<Rightarrow> [] | Some r \<Rightarrow> r)" for k
    using list_all_obj_get[of wf_obj entries k] inv by (auto simp: wf_obj_def split: option.splits)
  show ?thesis
  proof (cases "length keys = 2")
    case True
    have "list_all (\<lambda>p. wf_obj (snd p))
            (obj_set entries (key_at keys 0)
               (obj_set (case obj_get entries (key_at keys 0) of None \<Rightarrow> [] | Some r \<Rightarrow> r)
                  (key_at keys 1) e))"
      by (rule list_all_obj_set[where P = wf_obj, OF inv wf_obj_set[OF inner]])
    with True show ?thesis by (simp add: context_entry_def Let_def)
  next
    case False
    with inv show ?thesis by (simp add: context_entry_def)
  qed
qed

lemma generateEntries_context_wf:
  assumes "generateEntries_context env generatedKeys = Inr ctx"
  shows "wf_obj (case obj_get ctx k of None \<Rightarrow> [] | Some r \<Rightarrow> r)"
proof -
  have fold_inv: "list_all (\<lambda>p. wf_obj (snd p)) acc \<Longrightarrow>
      list_all (\<lambda>p. wf_obj (snd p)) (fold (\<lambda>f entries.
            context_entry entries (fileKeys f) (CommandEntry (file_entry env generatedKeys f) None)) files acc)"
    for files acc
    by (induction files arbitrary: acc) (auto simp: context_entry_wf)
  have "list_all (\<lambda>p. wf_obj (snd p)) ctx"
  proof (cases "scan env ''context''")
    case (Inl e)
    with assms show ?thesis
      by (cases e) (auto simp: generateEntries_context_def split: if_splits)
  next
    case (Inr files)
    with assms fold_inv[of "[]" files] show ?thesis
      by (auto simp: generateEntries_context_def)
  qed
  then show ?thesis
    using list_all_obj_get[of wf_obj ctx k] by (auto simp: wf_obj_def split: option.splits)
qed

lemma obj_set_nonempty: "obj_set m k v \<noteq> []"
  by (cases m) (auto split: if_splits)

lemma obj_assign_step: "obj_assign t (p # s) = obj_assign (obj_set t (fst p) (snd p)) s"
  by (cases p) (simp add: obj_assign_def)

lemma obj_assign_nonempty: "t \<noteq> [] \<Longrightarrow> obj_assign t s \<noteq> []"
proof (induction s arbitrary: t)
  case Nil
  then show ?case by (simp add: obj_assign_def)
next
  case (Cons p s)
  from Cons.IH[OF obj_set_nonempty] show ?case by (simp only: obj_assign_step) simp
qed

lemma obj_assign_empty: "obj_assign t s = [] \<longleftrightarrow> t = [] \<and> s = []"
proof (cases s)
  case Nil
  then show ?thesis by (simp add: obj_assign_def)
next
  case (Cons p s')
  from obj_assign_nonempty[OF obj_set_nonempty, of t "fst p" "snd p" s'] Cons
  show ?thesis by (simp add: obj_assign_step)
qed

lemma sort_by_empty: "sort_by cmp xs = [] \<longleftrightarrow> xs = []"
proof
  assume "sort_by cmp xs = []"
  then have "set (sort_by cmp xs) = {}" by simp
  then show "xs = []" by (simp add: set_sort_by)
next
  assume "xs = []"
  then show "sort_by cmp xs = []" by (simp add: sort_by_def)
qed

lemma sort_keys_empty: "sort_keys cmp m = [] \<longleftrightarrow> m = []"
  by (simp add: sort_keys_def obj_copy_def obj_assign_empty sort_by_empty)


lemma BASE_MANIFEST_wf: "wf_manifest (BASE_MANIFEST mode)"
  by (simp add: wf_manifest_def BASE_MANIFEST_def wf_obj_def)

lemma plugins_manifest_wf: "wf_manifest (plugins_manifest env type)"
  by (simp add: plugins_manifest_fold fold_merge_plugin_wf BASE_MANIFEST_wf)

lemma final_get:
  assumes "wf_obj pm" "wf_obj local"
  shows "obj_get (sort_keys cmp (obj_spread pm local)) k =
           (case obj_get local k of None \<Rightarrow> obj_get pm k | Some v \<Rightarrow> Some v)"
  by (simp add: obj_get_sort_keys wf_obj_spread obj_get_spread assms)

text \<open>
  The records and the middleware. Let the manifests of the installed plugins have no key
  twice in a record. In the emitted manifest a key of \<open>api\<close>, \<open>commands\<close>,
  \<open>context.message\<close> or \<open>context.user\<close> is bound as the locally generated entries bind it,
  or else as the last plugin that has it binds it; \<open>middleware\<close> is the plugins' middleware
  in order followed by the local one. \<open>readPluginManifest\<close> appends the permissions and the
  scopes of the plugins to each other; \<open>generateManifest\<close> then assigns the permissions and
  scopes it generates from the configuration.
\<close>

lemma plugins_merge_records_and_middleware:
  assumes run: "generateManifest env defaults type = Inr (manifest, written)"
    and wf: "list_all wf_manifest (installed_manifests env type)"
    and a: "generateEntries_api env [] = Inr api"
    and c: "generateEntries_commands env (dg_commands defaults) = Inr commands"
    and x: "generateEntries_context env (dg_context defaults) = Inr ctx"
    and w: "generateEntries_middleware env [] = Inr mw"
  shows "(\<forall>k. obj_get (m_api manifest) k =
            (case obj_get api k of
               None \<Rightarrow> latest (map m_api (installed_manifests env type)) k
             | Some v \<Rightarrow> Some v))
     \<and> (\<forall>k. obj_get (m_commands manifest) k =
            (case obj_get commands k of
               None \<Rightarrow> latest (map m_commands (installed_manifests env type)) k
             | Some v \<Rightarrow> Some v))
     \<and> (\<forall>k. obj_get (m_context_message manifest) k =
            (case obj_get (case obj_get ctx ''message'' of None \<Rightarrow> [] | Some r \<Rightarrow> r) k of
               None \<Rightarrow> latest (map m_context_message (installed_manifests env type)) k
             | Some v \<Rightarrow> Some v))
     \<and> (\<forall>k. obj_get (m_context_user manifest) k =
            (case obj_get (case obj_get ctx ''user'' of None \<Rightarrow> [] | Some r \<Rightarrow> r) k of
               None \<Rightarrow> latest (map m_context_user (installed_manifests env type)) k
             | Some v \<Rightarrow> Some v))
     \<and> m_middleware manifest = concat (map m_middleware (installed_manifests env type)) @ map snd mw
     \<and> permission_strings (m_permissions (plugins_manifest env type)) =
           concat (map (\<lambda>m. permission_strings (m_permissions m)) (installed_manifests env type))
     \<and> m_scopes (plugins_manifest env type) = concat (map m_scopes (installed_manifests env type))
     \<and> m_permissions manifest =
           PermissionsStrings (generatePermissions (env_localeCompare env) (env_config env))
     \<and> m_scopes manifest = generateScopes (env_localeCompare env) (env_config env) manifest"
proof -
  let ?ms = "installed_manifests env type"
  let ?pm = "plugins_manifest env type"
  from generateManifest_Inr[OF run] a c x w have
    m: "\<exists>events. manifest = finish_manifest env (new_manifest env type ?pm api commands ctx events (map snd mw))"
    by auto
  then obtain events where
    m: "manifest = finish_manifest env (new_manifest env type ?pm api commands ctx events (map snd mw))" ..
  have wfpm: "wf_obj (m_api ?pm)" "wf_obj (m_commands ?pm)" "wf_obj (m_context_message ?pm)"
      "wf_obj (m_context_user ?pm)"
    using plugins_manifest_wf[of env type] by (simp_all add: wf_manifest_def)
  have base: "obj_get (m_api (BASE_MANIFEST mode)) k = None"
      "obj_get (m_commands (BASE_MANIFEST mode)) k = None"
      "obj_get (m_context_message (BASE_MANIFEST mode)) k = None"
      "obj_get (m_context_user (BASE_MANIFEST mode)) k = None" for mode k
    by (simp_all add: BASE_MANIFEST_def obj_get_Nil)
  note plug = fold_merge_plugin_get[OF wf BASE_MANIFEST_wf, of "env_mode env", folded plugins_manifest_fold]
  have fields: "m_api manifest = sort_keys (env_localeCompare env) (obj_spread (m_api ?pm) api)"
      "m_commands manifest = sort_keys (env_localeCompare env) (obj_spread (m_commands ?pm) commands)"
      "m_context_message manifest = obj_spread (m_context_message ?pm)
          (case obj_get ctx ''message'' of None \<Rightarrow> [] | Some r \<Rightarrow> r)"
      "m_context_user manifest = obj_spread (m_context_user ?pm)
          (case obj_get ctx ''user'' of None \<Rightarrow> [] | Some r \<Rightarrow> r)"
      "m_middleware manifest = m_middleware ?pm @ map snd mw"
      "m_permissions manifest = PermissionsStrings (generatePermissions (env_localeCompare env) (env_config env))"
    by (simp_all add: m finish_manifest_def new_manifest_def Let_def)
  have scopes: "m_scopes manifest = generateScopes (env_localeCompare env) (env_config env) manifest"
    by (simp add: m finish_manifest_def new_manifest_def Let_def generateScopes_def sort_keys_empty)
  have g1: "\<forall>k. obj_get (m_api manifest) k =
            (case obj_get api k of None \<Rightarrow> latest (map m_api ?ms) k | Some v \<Rightarrow> Some v)"
    by (simp add: fields(1) final_get[OF wfpm(1) generateEntries_api_wf[OF a]] plug(1) base
        split: option.splits)
  have g2: "\<forall>k. obj_get (m_commands manifest) k =
            (case obj_get commands k of None \<Rightarrow> latest (map m_commands ?ms) k | Some v \<Rightarrow> Some v)"
    by (simp add: fields(2) final_get[OF wfpm(2) generateEntries_commands_wf[OF c]] plug(2) base
        split: option.splits)
  have g3: "\<forall>k. obj_get (m_context_message manifest) k =
            (case obj_get (case obj_get ctx ''message'' of None \<Rightarrow> [] | Some r \<Rightarrow> r) k of
               None \<Rightarrow> latest (map m_context_message ?ms) k | Some v \<Rightarrow> Some v)"
    by (simp add: fields(3) obj_get_spread[OF wfpm(3) generateEntries_context_wf[OF x]] plug(3) base
        split: option.splits)
  have g4: "\<forall>k. obj_get (m_context_user manifest) k =
            (case obj_get (case obj_get ctx ''user'' of None \<Rightarrow> [] | Some r \<Rightarrow> r) k of
               None \<Rightarrow> latest (map m_context_user ?ms) k | Some v \<Rightarrow> Some v)"
    by (simp add: fields(4) obj_get_spread[OF wfpm(4) generateEntries_context_wf[OF x]] plug(4) base
        split: option.splits)
  have lists: "m_middleware ?pm = concat (map m_middleware ?ms)"
      "permission_strings (m_permissions ?pm) = concat (map (\<lambda>m. permission_strings (m_permissions m)) ?ms)"
      "m_scopes ?pm = concat (map m_scopes ?ms)"
    by (simp_all add: plugins_manifest_fold fold_merge_plugin_lists BASE_MANIFEST_def)
  show ?thesis
    by (intro conjI g1 g2 g3 g4 scopes fields(6) lists(2,3)) (simp add: fields(5) lists(1))
qed

text \<open>
  Claim C5 (plugin merging is union and concatenation: records by key union, and
  middleware, permissions and scopes by concatenation). \<open>readPluginManifest\<close> does
  concatenate the permissions and scopes of the plugins, and \<open>generateManifest\<close> spreads
  the result into the new manifest; but it then overwrites both fields with what it
  generates from the configuration alone. The sample project installs one plugin with the
  permission \<open>BanMembers\<close> and the scope \<open>identify\<close>: neither is in the emitted manifest.
\<close>

theorem plugin_permissions_not_in_manifest:
  "installed_manifests moderation_env TypeRobo = [moderation_plugin]
   \<and> permission_strings (m_permissions moderation_plugin) = [''BanMembers'']
   \<and> m_scopes moderation_plugin = [''identify'']
   \<and> map_option m_permissions (manifest_of (generateManifest moderation_env no_defaults TypeRobo))
       = Some (PermissionsStrings [''ReadMessageHistory'', ''SendMessages'', ''ViewChannel''])
   \<and> map_option m_scopes (manifest_of (generateManifest moderation_env no_defaults TypeRobo))
       = Some [''applications.commands'', ''bot'']"
  by code_simp


text \<open>
  On the sample project with the plugin: the plugin's \<open>kick\<close> is in the manifest, its
  \<open>ping\<close> is overridden by the project's, its middleware is kept.
\<close>

lemma plugins_merge_records_and_middleware_example:
  "list_all wf_manifest (installed_manifests moderation_env TypeRobo)
   \<and> (\<exists>manifest written.
         generateManifest moderation_env no_defaults TypeRobo = Inr (manifest, written)
       \<and> obj_get (m_commands manifest) ''kick'' = Some (file_command ''/plugin/kick.js'')
       \<and> obj_get (m_commands manifest) ''ping'' = Some (file_command ''/.robo/build/commands/ping.js'')
       \<and> m_middleware manifest = [handler ''/plugin/audit.js'']
       \<and> permission_strings (m_permissions (plugins_manifest moderation_env TypeRobo)) = [''BanMembers'']
       \<and> m_scopes (plugins_manifest moderation_env TypeRobo) = [''identify''])"
proof -
  have wf: "list_all wf_manifest (installed_manifests moderation_env TypeRobo)" by code_simp
  have "\<not> isl (generateManifest moderation_env no_defaults TypeRobo)" by code_simp
  then obtain manifest written where
    run: "generateManifest moderation_env no_defaults TypeRobo = Inr (manifest, written)"
    by (cases "generateManifest moderation_env no_defaults TypeRobo") auto
  from generateManifest_Inr[OF run] obtain api commands ctx mw where
    a: "generateEntries_api moderation_env [] = Inr api"
    and c: "generateEntries_commands moderation_env (dg_commands no_defaults) = Inr commands"
    and x: "generateEntries_context moderation_env (dg_context no_defaults) = Inr ctx"
    and w: "generateEntries_middleware moderation_env [] = Inr mw"
    by blast
  have "obj_get (projr (generateEntries_commands moderation_env (dg_commands no_defaults))) ''kick'' = None"
    by code_simp
  then have kick0: "obj_get commands ''kick'' = None" by (simp add: c)
  have "obj_get (projr (generateEntries_commands moderation_env (dg_commands no_defaults))) ''ping''
          = Some (file_command ''/.robo/build/commands/ping.js'')"
    by code_simp
  then have ping0: "obj_get commands ''ping'' = Some (file_command ''/.robo/build/commands/ping.js'')"
    by (simp add: c)
  have "map snd (projr (generateEntries_middleware moderation_env [])) = []" by code_simp
  then have mw0: "map snd mw = []" by (simp add: w)
  have plugin: "latest (map m_commands (installed_manifests moderation_env TypeRobo)) ''kick''
                  = Some (file_command ''/plugin/kick.js'')"
      "concat (map m_middleware (installed_manifests moderation_env TypeRobo)) = [handler ''/plugin/audit.js'']"
      "concat (map (\<lambda>m. permission_strings (m_permissions m)) (installed_manifests moderation_env TypeRobo))
         = [''BanMembers'']"
      "concat (map m_scopes (installed_manifests moderation_env TypeRobo)) = [''identify'']"
    by code_simp+
  note t = plugins_merge_records_and_middleware[OF run wf a c x w]
  from t have cmd: "\<forall>k. obj_get (m_commands manifest) k =
            (case obj_get commands k of
               None \<Rightarrow> latest (map m_commands (installed_manifests moderation_env TypeRobo)) k
             | Some v \<Rightarrow> Some v)"
    and mid: "m_middleware manifest =
        concat (map m_middleware (installed_manifests moderation_env TypeRobo)) @ map snd mw"
    and perms: "permission_strings (m_permissions (plugins_manifest moderation_env TypeRobo)) =
           concat (map (\<lambda>m. permission_strings (m_permissions m)) (installed_manifests moderation_env TypeRobo))"
    and scopes: "m_scopes (plugins_manifest moderation_env TypeRobo) =
           concat (map m_scopes (installed_manifests moderation_env TypeRobo))"
    by simp_all
  have kick: "obj_get (m_commands manifest) ''kick'' = Some (file_command ''/plugin/kick.js'')"
    by (simp add: cmd kick0 plugin(1))
  have ping: "obj_get (m_commands manifest) ''ping'' = Some (file_command ''/.robo/build/commands/ping.js'')"
    by (simp add: cmd ping0)
  have middleware: "m_middleware manifest = [handler ''/plugin/audit.js'']"
    by (simp add: mid mw0 plugin(2))
  from wf run kick ping middleware perms scopes plugin(3,4) show ?thesis by auto
qed

section \<open>Modules are scanned with the main build output\<close>











end
